theory Spec2Isabelle
  imports Main "HOL-Library.Sublist" "HOL-Library.Product_Lexorder"
begin

section \<open>The RVM status registry\<close>

text \<open>
  The repository is a Django application: \<^verbatim>\<open>status/models.py\<close> declares the table,
  \<^verbatim>\<open>status/serializers.py\<close> the serializer, \<^verbatim>\<open>status/views.py\<close> the filter set and the
  view set, \<^verbatim>\<open>status/urls.py\<close> routes \<^verbatim>\<open>rvms/\<close> to the view set. The code is declarative,
  so each definition below is the behaviour that Django, Django REST framework and
  django-filter give to one declaration of the source; the declaration is quoted at each.

  The database is an explicit state: the rows of the table in insertion order and the
  next value of the auto-increment key. A request is a function from the state (and the
  clock) to a response and the new state.
\<close>

subsection \<open>models.py: the table\<close>

text \<open>
  A \<^verbatim>\<open>DateTimeField\<close> value is a point in time, here the number of microseconds since
  the epoch (the resolution of Python's \<^verbatim>\<open>datetime\<close>).
\<close>

type_synonym datetime = int

text \<open>
  \<^verbatim>\<open>class RVM(models.Model)\<close>: the implicit auto-increment primary key \<^verbatim>\<open>id\<close> (field
  \<open>id_pk\<close>, since \<open>id\<close> is the identity function of HOL) and the four declared columns.
  \<^verbatim>\<open>last_usage\<close> is \<^verbatim>\<open>null=True\<close>, so it is optional.
\<close>

record RVM =
  id_pk :: int
  name :: string
  location :: string
  is_active :: bool
  last_usage :: "datetime option"

text \<open>
  \<^verbatim>\<open>RVM()\<close> with no arguments: every column takes its declared default. \<^verbatim>\<open>location\<close> has
  \<^verbatim>\<open>default="Cairo"\<close>, \<^verbatim>\<open>is_active\<close> has \<^verbatim>\<open>default=True\<close>, \<^verbatim>\<open>last_usage\<close> has
  \<^verbatim>\<open>default=None\<close>. \<^verbatim>\<open>name\<close> declares no default: for a \<^verbatim>\<open>CharField\<close> that is not nullable
  Django's \<^verbatim>\<open>Field.get_default\<close> then gives the empty string. The key is given by the
  database at insertion, so it is the argument here.
\<close>

definition RVM_init :: "int \<Rightarrow> RVM" where
  "RVM_init i =
     \<lparr>id_pk = i, name = '''', location = ''Cairo'', is_active = True, last_usage = None\<rparr>"

text \<open>
  The database: the rows of the table, oldest first, and the auto-increment counter.
\<close>

record db =
  rows :: "RVM list"
  next_id :: int

definition empty_db :: db where
  "empty_db = \<lparr>rows = [], next_id = 1\<rparr>"

text \<open>
  The primary-key constraint, which the database keeps: no two rows share a key, and
  every key in use is below the counter.
\<close>

definition pk_constraint :: "db \<Rightarrow> bool" where
  "pk_constraint s \<longleftrightarrow>
     distinct (map id_pk (rows s)) \<and> list_all (\<lambda>r. id_pk r < next_id s) (rows s)"

text \<open>
  Modelled from the spec: where \<^verbatim>\<open>NULL\<close> goes in \<^verbatim>\<open>ORDER BY ... DESC\<close> is the choice of the
  database (last on SQLite and MySQL, first on PostgreSQL), and the project's settings,
  which name the database, are not among the source files. The spec says "nulls-last
  descending".
\<close>

definition nulls_last :: bool where
  "nulls_last = True"

text \<open>
  \<^verbatim>\<open>class Meta: ordering = ("-last_usage",)\<close>: every query on the model ends in
  \<^verbatim>\<open>ORDER BY last_usage DESC\<close>. The sort is by a key that grows as \<^verbatim>\<open>last_usage\<close> falls; the
  rows without a \<^verbatim>\<open>last_usage\<close> are all together, after or before all others as the
  database has it. SQL leaves the order of rows with equal keys open; the sort here is the
  stable insertion sort of the library, which keeps them in the order of insertion, as the
  spec asks to treat ties.
\<close>

definition desc_key :: "RVM \<Rightarrow> nat \<times> int" where
  "desc_key r =
     (case last_usage r of
        Some t \<Rightarrow> (if nulls_last then 0 else 1, - t)
      | None \<Rightarrow> (if nulls_last then 1 else 0, 0))"

definition order_by :: "RVM list \<Rightarrow> RVM list" where
  "order_by qs = sort_key desc_key qs"

text \<open>
  \<^verbatim>\<open>Model.save()\<close> of an instance that was read from the table: \<^verbatim>\<open>UPDATE ... WHERE id = pk\<close>
  writes every column of the instance to the rows with its key.
  \<^verbatim>\<open>Model.delete()\<close>: \<^verbatim>\<open>DELETE ... WHERE id = pk\<close>.
  \<^verbatim>\<open>RVM.objects.create(**attrs)\<close>: a new instance with the defaults, the attributes set on
  it, inserted under the next key.
\<close>

definition save :: "RVM \<Rightarrow> db \<Rightarrow> db" where
  "save inst s = s\<lparr>rows := map (\<lambda>r. if id_pk r = id_pk inst then inst else r) (rows s)\<rparr>"

definition delete :: "RVM \<Rightarrow> db \<Rightarrow> db" where
  "delete inst s = s\<lparr>rows := filter (\<lambda>r. id_pk r \<noteq> id_pk inst) (rows s)\<rparr>"

subsection \<open>serializers.py: the serializer\<close>

text \<open>JSON values: the parsed body of a request and the body of a response.\<close>

datatype jval =
  JNull
  | JBool bool
  | JNum int
  | JStr string
  | JTime datetime
  | JList "jval list"
  | JObj "(string \<times> jval) list"

text \<open>
  \<^verbatim>\<open>fields=["id","name","location","is_active","last_usage"]\<close> and
  \<^verbatim>\<open>read_only_fields=fields\<close>. The list \<^verbatim>\<open>fields\<close> of the \<^verbatim>\<open>Meta\<close> class is \<open>Meta_fields\<close>
  here.
\<close>

definition Meta_fields :: "string list" where
  "Meta_fields = [''id'', ''name'', ''location'', ''is_active'', ''last_usage'']"

definition read_only_fields :: "string list" where
  "read_only_fields = Meta_fields"

text \<open>
  Output. \<^verbatim>\<open>Serializer.to_representation\<close> walks the readable fields (all of \<open>Meta_fields\<close>:
  none is write-only) and reads each attribute of the instance. \<open>JTime\<close> stands for the
  ISO-8601 text of a time.
\<close>

definition get_attribute :: "RVM \<Rightarrow> string \<Rightarrow> jval" where
  "get_attribute r f =
     (if f = ''id'' then JNum (id_pk r)
      else if f = ''name'' then JStr (name r)
      else if f = ''location'' then JStr (location r)
      else if f = ''is_active'' then JBool (is_active r)
      else if f = ''last_usage'' then (case last_usage r of None \<Rightarrow> JNull | Some t \<Rightarrow> JTime t)
      else JNull)"

definition to_representation :: "RVM \<Rightarrow> jval" where
  "to_representation r = JObj (map (\<lambda>f. (f, get_attribute r f)) Meta_fields)"

text \<open>
  Input. A \<^verbatim>\<open>ModelSerializer\<close> builds a read-only field for an auto-increment key whatever
  the \<^verbatim>\<open>Meta\<close> says, and for every name in \<^verbatim>\<open>read_only_fields\<close>;
  \<^verbatim>\<open>Serializer._writable_fields\<close> are the fields that are not read-only. A field is required
  when its column has no default and is not nullable: only \<^verbatim>\<open>name\<close>.
\<close>

definition editable :: "string \<Rightarrow> bool" where
  "editable f \<longleftrightarrow> f \<noteq> ''id''"

definition writable_fields :: "string list" where
  "writable_fields = filter (\<lambda>f. editable f \<and> f \<notin> set read_only_fields) Meta_fields"

definition required :: "string \<Rightarrow> bool" where
  "required f \<longleftrightarrow> f = ''name''"

text \<open>
  The value a field's own \<^verbatim>\<open>to_internal_value\<close> parses from JSON. How a field parses
  (what a \<^verbatim>\<open>CharField\<close> or a \<^verbatim>\<open>DateTimeField\<close> of the framework accepts) is a parameter
  \<open>P\<close> of the model: a function from the field's name and the JSON value to an error
  message or a value.
\<close>

datatype fval = VStr string | VBool bool | VTime "datetime option" | VInt int

type_synonym field_parser = "string \<Rightarrow> jval \<Rightarrow> string + fval"

datatype error =
  Http404
  | ValidationError "(string \<times> string) list"
  | MultipleObjectsReturned

text \<open>
  \<^verbatim>\<open>Field.validate_empty_values\<close> and \<^verbatim>\<open>Field.run_validation\<close> for one writable field: a
  field absent from the data is skipped on a partial update, is an error when required,
  and is skipped otherwise (the column's default applies on creation).
\<close>

datatype outcome = Skip | Fail string | Parsed fval

definition run_validation :: "field_parser \<Rightarrow> bool \<Rightarrow> (string \<times> jval) list \<Rightarrow> string \<Rightarrow> outcome" where
  "run_validation P partial data f =
     (case map_of data f of
        None \<Rightarrow>
          if partial then Skip
          else if required f then Fail ''This field is required.''
          else Skip
      | Some v \<Rightarrow> (case P f v of Inl msg \<Rightarrow> Fail msg | Inr x \<Rightarrow> Parsed x))"

fun errors_of :: "(string \<times> outcome) list \<Rightarrow> (string \<times> string) list" where
  "errors_of [] = []"
| "errors_of ((f, Fail msg) # os) = (f, msg) # errors_of os"
| "errors_of (_ # os) = errors_of os"

fun values_of :: "(string \<times> outcome) list \<Rightarrow> (string \<times> fval) list" where
  "values_of [] = []"
| "values_of ((f, Parsed x) # os) = (f, x) # values_of os"
| "values_of (_ # os) = values_of os"

text \<open>
  \<^verbatim>\<open>type(data).__name__\<close> of the parsed body of a request. \<open>JTime\<close> is a text in JSON.
\<close>

fun type_name :: "jval \<Rightarrow> string" where
  "type_name JNull = ''NoneType''"
| "type_name (JBool _) = ''bool''"
| "type_name (JNum _) = ''int''"
| "type_name (JStr _) = ''str''"
| "type_name (JTime _) = ''str''"
| "type_name (JList _) = ''list''"
| "type_name (JObj _) = ''dict''"

text \<open>
  \<^verbatim>\<open>Serializer.run_validation\<close> and \<^verbatim>\<open>Serializer.to_internal_value\<close>, as
  \<^verbatim>\<open>is_valid(raise_exception=True)\<close> runs them. Data that is \<^verbatim>\<open>null\<close> fails in
  \<^verbatim>\<open>validate_empty_values\<close>, and the \<^verbatim>\<open>errors\<close> of the serializer report it as
  \<^verbatim>\<open>No data provided\<close>. Data that is not a dictionary fails with the message
  \<^verbatim>\<open>Invalid data. Expected a dictionary, but got {datatype}.\<close> Both are errors under the key
  \<^verbatim>\<open>non_field_errors\<close>. For a dictionary the loop runs over the writable fields and collects
  the errors, and the validated data when there is none.
\<close>

definition to_internal_value ::
    "field_parser \<Rightarrow> bool \<Rightarrow> jval \<Rightarrow> error + (string \<times> fval) list" where
  "to_internal_value P partial data =
     (case data of
        JNull \<Rightarrow> Inl (ValidationError [(''non_field_errors'', ''No data provided'')])
      | JObj kvs \<Rightarrow>
          (let outs = map (\<lambda>f. (f, run_validation P partial kvs f)) writable_fields in
           if errors_of outs \<noteq> [] then Inl (ValidationError (errors_of outs))
           else Inr (values_of outs))
      | _ \<Rightarrow>
          Inl (ValidationError
                 [(''non_field_errors'',
                   ''Invalid data. Expected a dictionary, but got '' @ type_name data @ ''.'')]))"

text \<open>
  \<^verbatim>\<open>setattr(instance, attr, value)\<close> for one item of the validated data.
\<close>

fun setattr :: "RVM \<Rightarrow> string \<times> fval \<Rightarrow> RVM" where
  "setattr r (f, VStr v) =
     (if f = ''name'' then r\<lparr>name := v\<rparr>
      else if f = ''location'' then r\<lparr>location := v\<rparr> else r)"
| "setattr r (f, VBool v) = (if f = ''is_active'' then r\<lparr>is_active := v\<rparr> else r)"
| "setattr r (f, VTime v) = (if f = ''last_usage'' then r\<lparr>last_usage := v\<rparr> else r)"
| "setattr r (f, VInt v) = (if f = ''id'' then r\<lparr>id_pk := v\<rparr> else r)"

text \<open>
  \<^verbatim>\<open>ModelSerializer.create\<close> is \<^verbatim>\<open>RVM.objects.create(**validated_data)\<close>;
  \<^verbatim>\<open>ModelSerializer.update\<close> sets each validated attribute on the instance and saves it.
\<close>

definition objects_create :: "(string \<times> fval) list \<Rightarrow> db \<Rightarrow> RVM \<times> db" where
  "objects_create attrs s =
     (let inst = foldl setattr (RVM_init (next_id s)) attrs in
      (inst, \<lparr>rows = rows s @ [inst], next_id = next_id s + 1\<rparr>))"

definition serializer_update :: "RVM \<Rightarrow> (string \<times> fval) list \<Rightarrow> db \<Rightarrow> RVM \<times> db" where
  "serializer_update instance attrs s =
     (let inst = foldl setattr instance attrs in (inst, save inst s))"

subsection \<open>views.py: the filter set\<close>

text \<open>
  The query string of a request, read by the filter set: the raw text of each of the three
  parameters of \<^verbatim>\<open>Meta.fields = ["location", "loc", "recent"]\<close>, or \<open>None\<close> when the
  parameter is not in the URL. Strings are lists of characters with codes below 256.
\<close>

record query_params =
  location_param :: "string option"
  loc_param :: "string option"
  recent_param :: "string option"

definition no_params :: query_params where
  "no_params = \<lparr>location_param = None, loc_param = None, recent_param = None\<rparr>"

text \<open>
  Each filter cleans its parameter with a form field. A \<^verbatim>\<open>CharFilter\<close> uses Django's
  \<^verbatim>\<open>forms.CharField\<close> (not required): an absent parameter is the empty string, the text is
  stripped of leading and trailing whitespace (\<^verbatim>\<open>strip=True\<close> is the field's default,
  \<^verbatim>\<open>str.strip()\<close>: \<open>to_python\<close>), and the field's validators refuse a NUL character
  (\<open>run_validators\<close>). \<open>isspace\<close> is Python's \<^verbatim>\<open>str.isspace\<close> on the characters below 256.
\<close>

definition isspace :: "char \<Rightarrow> bool" where
  "isspace c \<longleftrightarrow> (of_char c :: nat) \<in> {9, 10, 11, 12, 13, 28, 29, 30, 31, 32, 133, 160}"

definition strip :: "string \<Rightarrow> string" where
  "strip s = rev (dropWhile isspace (rev (dropWhile isspace s)))"

definition to_python :: "string option \<Rightarrow> string" where
  "to_python raw = strip (case raw of None \<Rightarrow> [] | Some s \<Rightarrow> s)"

definition run_validators :: "string \<Rightarrow> string list" where
  "run_validators v =
     (if CHR 0x00 \<in> set v then [''Null characters are not allowed.''] else [])"

text \<open>
  A \<^verbatim>\<open>BooleanFilter\<close> uses \<^verbatim>\<open>forms.NullBooleanField\<close> with its widget
  \<^verbatim>\<open>NullBooleanSelect\<close>. The widget reads the parameter (\<^verbatim>\<open>value_from_datadict\<close>): the
  texts \<^verbatim>\<open>True\<close> and \<^verbatim>\<open>true\<close> (and \<^verbatim>\<open>2\<close>, kept for the forms of older versions) are the
  value \<^verbatim>\<open>True\<close>, the texts \<^verbatim>\<open>False\<close> and \<^verbatim>\<open>false\<close> (and \<^verbatim>\<open>3\<close>) the value \<^verbatim>\<open>False\<close>, and
  anything else, an absent parameter too, is \<^verbatim>\<open>None\<close>. \<^verbatim>\<open>to_python\<close> of the field keeps
  these three values as they are. The field never fails.
\<close>

definition value_from_datadict :: "string option \<Rightarrow> bool option" where
  "value_from_datadict raw =
     (case raw of
        None \<Rightarrow> None
      | Some s \<Rightarrow>
          if s \<in> set [''True'', ''true'', ''2''] then Some True
          else if s \<in> set [''False'', ''false'', ''3''] then Some False
          else None)"

definition clean_nullboolean :: "string option \<Rightarrow> bool option" where
  "clean_nullboolean raw =
     (case value_from_datadict raw of
        Some True \<Rightarrow> Some True
      | Some False \<Rightarrow> Some False
      | None \<Rightarrow> None)"

text \<open>
  The filter generated for \<^verbatim>\<open>"location"\<close> in \<^verbatim>\<open>Meta.fields\<close>: a \<^verbatim>\<open>CharFilter\<close> with the
  lookup \<^verbatim>\<open>exact\<close>. \<^verbatim>\<open>Filter.filter\<close> returns the queryset as it is when the cleaned value
  is empty.
\<close>

definition filter_location :: "RVM list \<Rightarrow> string \<Rightarrow> RVM list" where
  "filter_location queryset v =
     (if v = '''' then queryset else filter (\<lambda>r. location r = v) queryset)"

text \<open>
  \<^verbatim>\<open>loc = django_filters.CharFilter(field_name="location", lookup_expr="icontains")\<close>.
  \<^verbatim>\<open>icontains\<close> compares both sides in one letter case; the letters folded are those of
  ASCII (what SQLite's \<^verbatim>\<open>LIKE\<close> does; other databases also fold letters beyond ASCII).
\<close>

definition lower_char :: "char \<Rightarrow> char" where
  "lower_char c =
     (let n = of_char c :: nat in if 65 \<le> n \<and> n \<le> 90 then char_of (n + 32) else c)"

definition icontains :: "string \<Rightarrow> string \<Rightarrow> bool" where
  "icontains text v \<longleftrightarrow> sublist (map lower_char v) (map lower_char text)"

definition filter_loc :: "RVM list \<Rightarrow> string \<Rightarrow> RVM list" where
  "filter_loc queryset v =
     (if v = '''' then queryset else filter (\<lambda>r. icontains (location r) v) queryset)"

text \<open>
  \<^verbatim>\<open>
  def filter_recent(self, queryset, name, value):
      if value:
          cutoff = timezone.now() - timedelta(hours=24)
          return queryset.filter(last_usage__isnull=False, last_usage__gte=cutoff)
      return queryset
  \<close>
  \<open>now\<close> is what \<^verbatim>\<open>timezone.now()\<close> returns when the request runs; the method reads it
  once. \<^verbatim>\<open>timedelta(hours=24)\<close> in microseconds is \<open>hours_24\<close>.
\<close>

definition hours_24 :: int where
  "hours_24 = 24 * 60 * 60 * 1000000"

definition filter_recent :: "datetime \<Rightarrow> RVM list \<Rightarrow> bool \<Rightarrow> RVM list" where
  "filter_recent now queryset v =
     (if v then
        (let cutoff = now - hours_24 in
         filter (\<lambda>r. last_usage r \<noteq> None \<and> (case last_usage r of None \<Rightarrow> False | Some t \<Rightarrow> cutoff \<le> t))
           queryset)
      else queryset)"

text \<open>
  \<^verbatim>\<open>recent = django_filters.BooleanFilter(method="filter_recent")\<close>: a filter with a method
  returns the queryset as it is when the cleaned value is \<^verbatim>\<open>None\<close>, and calls the method
  otherwise, with \<^verbatim>\<open>False\<close> too.
\<close>

definition recent :: "datetime \<Rightarrow> RVM list \<Rightarrow> bool option \<Rightarrow> RVM list" where
  "recent now queryset v =
     (case v of None \<Rightarrow> queryset | Some b \<Rightarrow> filter_recent now queryset b)"

text \<open>
  Modelled from the spec: a view set passes its queryset through the backends of
  \<^verbatim>\<open>filter_backends\<close>, which the view set of the source does not set, so it is the
  \<^verbatim>\<open>DEFAULT_FILTER_BACKENDS\<close> of the project's settings, and these are not among the source
  files. The spec says that the listing is filtered by the query parameters, so the
  backend of django-filter is in the list.
\<close>

definition filter_backends :: "string list" where
  "filter_backends = [''django_filters.rest_framework.DjangoFilterBackend'']"

text \<open>
  \<^verbatim>\<open>filterset_class = RVMFilter\<close>: the filter backend of django-filter cleans the three
  parameters, raises a validation error (status 400) with the errors of the form when
  the form is not valid, and otherwise passes the queryset through every filter in turn.
  (A listing is not paginated: the view set sets no \<^verbatim>\<open>pagination_class\<close>, and the spec
  returns the listing as one array.)
\<close>

definition form_errors :: "query_params \<Rightarrow> (string \<times> string) list" where
  "form_errors q =
     map (Pair ''location'') (run_validators (to_python (location_param q))) @
     map (Pair ''loc'') (run_validators (to_python (loc_param q)))"

definition is_valid :: "query_params \<Rightarrow> bool" where
  "is_valid q \<longleftrightarrow> form_errors q = []"

definition filter_queryset :: "query_params \<Rightarrow> datetime \<Rightarrow> RVM list \<Rightarrow> error + RVM list" where
  "filter_queryset q now queryset =
     (if ''django_filters.rest_framework.DjangoFilterBackend'' \<notin> set filter_backends
      then Inr queryset
      else if \<not> is_valid q then Inl (ValidationError (form_errors q))
      else Inr (recent now
                 (filter_loc (filter_location queryset (to_python (location_param q)))
                    (to_python (loc_param q)))
                 (clean_nullboolean (recent_param q))))"

subsection \<open>views.py: the view set\<close>

text \<open>
  \<^verbatim>\<open>queryset = RVM.objects.filter(is_active=True)\<close>, in the model's ordering.
\<close>

definition get_queryset :: "db \<Rightarrow> RVM list" where
  "get_queryset s = order_by (filter is_active (rows s))"

text \<open>
  \<^verbatim>\<open>GenericAPIView.get_object\<close>, used by retrieve, update and destroy: the queryset goes
  through the filter backend (the query string of the request applies here too), and
  \<^verbatim>\<open>get_object_or_404(queryset, pk=i)\<close> picks the row with the key of the URL.
\<close>

definition get_object :: "query_params \<Rightarrow> datetime \<Rightarrow> db \<Rightarrow> int \<Rightarrow> error + RVM" where
  "get_object q now s i =
     (case filter_queryset q now (get_queryset s) of
        Inl e \<Rightarrow> Inl e
      | Inr queryset \<Rightarrow>
          (case filter (\<lambda>r. id_pk r = i) queryset of
             [] \<Rightarrow> Inl Http404
           | [r] \<Rightarrow> Inr r
           | _ \<Rightarrow> Inl MultipleObjectsReturned))"

text \<open>
  The responses of the five actions of a \<^verbatim>\<open>ModelViewSet\<close>. The exception handler of the
  framework turns \<^verbatim>\<open>Http404\<close> into status 404 and a \<^verbatim>\<open>ValidationError\<close> into status 400
  with the errors by field; any other exception is a server error.
\<close>

datatype response =
  HTTP_200_OK jval
  | HTTP_201_CREATED jval
  | HTTP_204_NO_CONTENT
  | HTTP_400_BAD_REQUEST "(string \<times> string) list"
  | HTTP_404_NOT_FOUND
  | HTTP_500_INTERNAL_SERVER_ERROR

fun handle_exception :: "error \<Rightarrow> response" where
  "handle_exception Http404 = HTTP_404_NOT_FOUND"
| "handle_exception (ValidationError errs) = HTTP_400_BAD_REQUEST errs"
| "handle_exception MultipleObjectsReturned = HTTP_500_INTERNAL_SERVER_ERROR"

text \<open>
  \<^verbatim>\<open>ListModelMixin.list\<close>: the filtered queryset, serialized row by row. \<open>listed\<close> is the
  rows of the response before serialization.
\<close>

definition listed :: "query_params \<Rightarrow> datetime \<Rightarrow> db \<Rightarrow> error + RVM list" where
  "listed q now s = filter_queryset q now (get_queryset s)"

definition list_action :: "query_params \<Rightarrow> datetime \<Rightarrow> db \<Rightarrow> response" where
  "list_action q now s =
     (case listed q now s of
        Inl e \<Rightarrow> handle_exception e
      | Inr queryset \<Rightarrow> HTTP_200_OK (JList (map to_representation queryset)))"

text \<open>\<^verbatim>\<open>RetrieveModelMixin.retrieve\<close>.\<close>

definition retrieve :: "query_params \<Rightarrow> datetime \<Rightarrow> db \<Rightarrow> int \<Rightarrow> response" where
  "retrieve q now s i =
     (case get_object q now s i of
        Inl e \<Rightarrow> handle_exception e
      | Inr instance \<Rightarrow> HTTP_200_OK (to_representation instance))"

text \<open>
  \<^verbatim>\<open>CreateModelMixin.create\<close>: validate the data, save a new row, answer 201 with its
  representation.
\<close>

definition create :: "field_parser \<Rightarrow> jval \<Rightarrow> db \<Rightarrow> response \<times> db" where
  "create P data s =
     (case to_internal_value P False data of
        Inl e \<Rightarrow> (handle_exception e, s)
      | Inr attrs \<Rightarrow>
          (let (inst, s') = objects_create attrs s in
           (HTTP_201_CREATED (to_representation inst), s')))"

text \<open>
  \<^verbatim>\<open>UpdateModelMixin.update\<close> (PUT, \<open>partial = False\<close>) and \<^verbatim>\<open>partial_update\<close> (PATCH,
  \<open>partial = True\<close>): find the row, validate the data, set the attributes, save, answer
  200 with the representation.
\<close>

definition update ::
    "field_parser \<Rightarrow> bool \<Rightarrow> query_params \<Rightarrow> datetime \<Rightarrow> jval \<Rightarrow> db \<Rightarrow> int \<Rightarrow> response \<times> db" where
  "update P partial q now data s i =
     (case get_object q now s i of
        Inl e \<Rightarrow> (handle_exception e, s)
      | Inr instance \<Rightarrow>
          (case to_internal_value P partial data of
             Inl e \<Rightarrow> (handle_exception e, s)
           | Inr attrs \<Rightarrow>
               (let (inst, s') = serializer_update instance attrs s in
                (HTTP_200_OK (to_representation inst), s'))))"

text \<open>\<^verbatim>\<open>DestroyModelMixin.destroy\<close>: find the row, delete it, answer 204.\<close>

definition destroy :: "query_params \<Rightarrow> datetime \<Rightarrow> db \<Rightarrow> int \<Rightarrow> response \<times> db" where
  "destroy q now s i =
     (case get_object q now s i of
        Inl e \<Rightarrow> (handle_exception e, s)
      | Inr instance \<Rightarrow> (HTTP_204_NO_CONTENT, delete instance s))"

subsection \<open>urls.py: the routes\<close>

text \<open>
  \<^verbatim>\<open>router.register("rvms", RVMViewSet, basename="rvms")\<close>: the router maps the methods on the
  collection \<^verbatim>\<open>rvms/\<close> to \<^verbatim>\<open>list\<close> and \<^verbatim>\<open>create\<close>, and the methods on \<^verbatim>\<open>rvms/{pk}/\<close> to
  \<^verbatim>\<open>retrieve\<close>, \<^verbatim>\<open>update\<close>, \<^verbatim>\<open>partial_update\<close> and \<^verbatim>\<open>destroy\<close>. A request carries the
  key of its URL, its query string and its parsed body.
\<close>

datatype request =
  GET_list query_params
  | POST jval
  | GET_detail int query_params
  | PUT int query_params jval
  | PATCH int query_params jval
  | DELETE int query_params

fun dispatch :: "field_parser \<Rightarrow> datetime \<Rightarrow> request \<Rightarrow> db \<Rightarrow> response \<times> db" where
  "dispatch P now (GET_list q) s = (list_action q now s, s)"
| "dispatch P now (POST data) s = create P data s"
| "dispatch P now (GET_detail i q) s = (retrieve q now s i, s)"
| "dispatch P now (PUT i q data) s = update P False q now data s i"
| "dispatch P now (PATCH i q data) s = update P True q now data s i"
| "dispatch P now (DELETE i q) s = destroy q now s i"

text \<open>The state after a sequence of requests, each with the time at which it runs.\<close>

fun run :: "field_parser \<Rightarrow> (datetime \<times> request) list \<Rightarrow> db \<Rightarrow> db" where
  "run P [] s = s"
| "run P ((now, rq) # rqs) s = run P rqs (snd (dispatch P now rq s))"

text \<open>
  A field parser to run the model with: it takes a JSON value of the column's type as it
  is and refuses anything else.
\<close>

definition typed_parser :: field_parser where
  "typed_parser f v =
     (case v of
        JStr x \<Rightarrow> if f \<in> set [''name'', ''location''] then Inr (VStr x) else Inl ''Invalid value.''
      | JBool b \<Rightarrow> if f = ''is_active'' then Inr (VBool b) else Inl ''Invalid value.''
      | JTime t \<Rightarrow> if f = ''last_usage'' then Inr (VTime (Some t)) else Inl ''Invalid value.''
      | JNull \<Rightarrow> if f = ''last_usage'' then Inr (VTime None) else Inl ''Invalid value.''
      | JNum n \<Rightarrow> if f = ''id'' then Inr (VInt n) else Inl ''Invalid value.''
      | _ \<Rightarrow> Inl ''Invalid value.'')"

text \<open>
  What the three filters together ask of a row, for a query string and a time: the
  predicate of the \<^verbatim>\<open>WHERE\<close> clause that the filter set adds to the query.
\<close>

definition passes :: "query_params \<Rightarrow> datetime \<Rightarrow> RVM \<Rightarrow> bool" where
  "passes q now r \<longleftrightarrow>
     (to_python (location_param q) = [] \<or> location r = to_python (location_param q)) \<and>
     (to_python (loc_param q) = [] \<or> icontains (location r) (to_python (loc_param q))) \<and>
     (clean_nullboolean (recent_param q) = Some True \<longrightarrow>
        (case last_usage r of None \<Rightarrow> False | Some t \<Rightarrow> now - hours_24 \<le> t))"


subsection \<open>A sample database\<close>

text \<open>
  Four rows to run the model on: one of them inactive, one never used, two used at
  different times, in three locations.
\<close>

definition rvm1 :: RVM where
  "rvm1 = \<lparr>id_pk = 1, name = ''Alpha'', location = ''Alexandria'', is_active = True,
            last_usage = Some 90000000000\<rparr>"

definition rvm2 :: RVM where
  "rvm2 = \<lparr>id_pk = 2, name = ''Beta'', location = ''Cairo'', is_active = False,
            last_usage = Some 95000000000\<rparr>"

definition rvm3 :: RVM where
  "rvm3 = \<lparr>id_pk = 3, name = ''Gamma'', location = ''Cairo'', is_active = True,
            last_usage = None\<rparr>"

definition rvm4 :: RVM where
  "rvm4 = \<lparr>id_pk = 4, name = ''Delta'', location = ''New Cairo'', is_active = True,
            last_usage = Some 1000\<rparr>"

definition sample_db :: db where
  "sample_db = \<lparr>rows = [rvm1, rvm2, rvm3, rvm4], next_id = 5\<rparr>"

definition sample_fields :: "(string \<times> jval) list" where
  "sample_fields =
     [(''id'', JNum 77), (''name'', JStr ''Omega''), (''location'', JStr ''Giza''),
      (''is_active'', JBool False), (''last_usage'', JTime 5)]"

section \<open>Properties\<close>

subsection \<open>The serializer, the queryset and the filter set\<close>

lemma writable_fields_Nil: "writable_fields = []"
  by (simp add: writable_fields_def read_only_fields_def)

lemma to_internal_value_JObj: "to_internal_value P partial (JObj kvs) = Inr []"
  by (simp add: to_internal_value_def writable_fields_Nil)

lemma create_JObj:
  "create P (JObj kvs) s =
     (HTTP_201_CREATED (to_representation (RVM_init (next_id s))),
      \<lparr>rows = rows s @ [RVM_init (next_id s)], next_id = next_id s + 1\<rparr>)"
  by (simp add: create_def to_internal_value_JObj objects_create_def Let_def)

lemma set_order_by: "set (order_by qs) = set qs"
  by (simp add: order_by_def)

lemma set_get_queryset: "set (get_queryset s) = {r \<in> set (rows s). is_active r}"
  by (simp add: get_queryset_def set_order_by)

lemma distinct_pk_order_by:
  assumes "distinct (map id_pk qs)"
  shows "distinct (map id_pk (order_by qs))"
  using assms by (simp add: order_by_def distinct_map)

lemma distinct_pk_get_queryset:
  "pk_constraint s \<Longrightarrow> distinct (map id_pk (get_queryset s))"
  by (simp add: pk_constraint_def get_queryset_def distinct_pk_order_by distinct_map_filter)

lemma filter_key_single:
  "distinct (map f qs) \<Longrightarrow> r \<in> set qs \<Longrightarrow> filter (\<lambda>x. f x = f r) qs = [r]"
proof (induction qs)
  case Nil
  then show ?case by simp
next
  case (Cons a qs)
  show ?case
  proof (cases "a = r")
    case True
    with Cons.prems have "f r \<notin> f ` set qs"
      by simp
    then have "\<forall>x\<in>set qs. f x \<noteq> f r"
      by (metis imageI)
    then have "filter (\<lambda>x. f x = f r) qs = []"
      by (simp add: filter_empty_conv)
    with True show ?thesis by simp
  next
    case False
    with Cons.prems have "r \<in> set qs" "f a \<noteq> f r" "distinct (map f qs)"
      by auto
    with Cons.IH show ?thesis by simp
  qed
qed

lemma is_valid_no_params: "is_valid no_params"
  by (simp add: is_valid_def form_errors_def no_params_def to_python_def strip_def
      run_validators_def)

lemma filter_queryset_no_params: "filter_queryset no_params now qs = Inr qs"
  by (simp add: filter_queryset_def filter_backends_def is_valid_no_params)
     (simp add: no_params_def to_python_def strip_def filter_location_def filter_loc_def
        clean_nullboolean_def value_from_datadict_def recent_def)

lemma listed_no_params: "listed no_params now s = Inr (get_queryset s)"
  by (simp add: listed_def filter_queryset_no_params)


lemma filter_recent_eq:
  "filter_recent now qs b =
     filter (\<lambda>r. b \<longrightarrow> (\<exists>t. last_usage r = Some t \<and> now - hours_24 \<le> t)) qs"
  by (cases b) (auto simp: filter_recent_def Let_def intro!: filter_cong split: option.splits)

lemma recent_eq:
  "recent now qs v =
     filter (\<lambda>r. v = Some True \<longrightarrow> (\<exists>t. last_usage r = Some t \<and> now - hours_24 \<le> t)) qs"
  by (cases v) (simp_all add: recent_def filter_recent_eq)

lemma filter_location_eq:
  "filter_location qs v = filter (\<lambda>r. v = [] \<or> location r = v) qs"
  by (simp add: filter_location_def)

lemma filter_loc_eq:
  "filter_loc qs v = filter (\<lambda>r. v = [] \<or> icontains (location r) v) qs"
  by (simp add: filter_loc_def)

lemma filter_queryset_valid:
  "is_valid q \<Longrightarrow> filter_queryset q now qs = Inr (filter (passes q now) qs)"
  by (simp add: filter_queryset_def filter_backends_def recent_eq filter_location_eq filter_loc_eq)
     (rule filter_cong, auto simp: passes_def split: option.splits)

lemma filter_queryset_invalid:
  "\<not> is_valid q \<Longrightarrow> filter_queryset q now qs = Inl (ValidationError (form_errors q))"
  by (simp add: filter_queryset_def filter_backends_def)

lemma filter_queryset_Inr:
  "filter_queryset q now qs = Inr rs \<Longrightarrow> is_valid q \<and> rs = filter (passes q now) qs"
  by (cases "is_valid q") (simp_all add: filter_queryset_valid filter_queryset_invalid)


lemma get_object_valid:
  "is_valid q \<Longrightarrow>
   get_object q now s i =
     (case filter (\<lambda>r. id_pk r = i) (filter (passes q now) (get_queryset s)) of
        [] \<Rightarrow> Inl Http404 | [r] \<Rightarrow> Inr r | _ \<Rightarrow> Inl MultipleObjectsReturned)"
  by (simp add: get_object_def filter_queryset_valid)

lemma get_object_invalid:
  "\<not> is_valid q \<Longrightarrow> get_object q now s i = Inl (ValidationError (form_errors q))"
  by (simp add: get_object_def filter_queryset_invalid)

lemma passes_no_params: "passes no_params now r"
  by (simp add: passes_def no_params_def to_python_def strip_def clean_nullboolean_def value_from_datadict_def)

text \<open>An active row is found under its key; where no active row has the key, nothing is.\<close>

lemma get_object_found:
  assumes "pk_constraint s" "r \<in> set (rows s)" "is_active r" "is_valid q" "passes q now r"
  shows "get_object q now s (id_pk r) = Inr r"
proof -
  let ?qs = "filter (passes q now) (get_queryset s)"
  have "distinct (map id_pk ?qs)"
    using assms(1) by (simp add: distinct_pk_get_queryset distinct_map_filter)
  moreover have "r \<in> set ?qs"
    using assms by (simp add: set_get_queryset)
  ultimately have "filter (\<lambda>x. id_pk x = id_pk r) ?qs = [r]"
    by (rule filter_key_single)
  then show ?thesis
    using assms(4) by (simp add: get_object_valid)
qed

lemma get_object_not_found:
  assumes "\<forall>r\<in>set (rows s). id_pk r = i \<longrightarrow> \<not> is_active r" "is_valid q"
  shows "get_object q now s i = Inl Http404"
proof -
  have "filter (\<lambda>r. id_pk r = i) (filter (passes q now) (get_queryset s)) = []"
    using assms(1) by (auto simp: filter_empty_conv set_get_queryset)
  then show ?thesis
    using assms(2) by (simp add: get_object_valid)
qed

lemma get_object_Inr:
  assumes "get_object q now s i = Inr r"
  shows "r \<in> set (rows s) \<and> is_active r \<and> id_pk r = i \<and> is_valid q \<and> passes q now r"
proof -
  have v: "is_valid q"
    using assms by (cases "is_valid q") (simp_all add: get_object_invalid)
  let ?hits = "filter (\<lambda>r. id_pk r = i) (filter (passes q now) (get_queryset s))"
  have "?hits = [r]"
    using assms v by (simp add: get_object_valid split: list.splits)
  then have "r \<in> set ?hits"
    by simp
  then show ?thesis
    using v by (simp add: set_get_queryset)
qed

lemma save_unchanged:
  assumes "pk_constraint s" "r \<in> set (rows s)"
  shows "save r s = s"
proof -
  have d: "distinct (map id_pk (rows s))"
    using assms(1) by (simp add: pk_constraint_def)
  have "\<And>x. x \<in> set (rows s) \<Longrightarrow> id_pk x = id_pk r \<Longrightarrow> x = r"
    using d assms(2) by (meson distinct_map inj_onD)
  then have "map (\<lambda>x. if id_pk x = id_pk r then r else x) (rows s) = rows s"
    by (intro map_idI) metis
  then show ?thesis
    by (simp add: save_def)
qed

lemma update_JObj:
  "update P partial q now (JObj kvs) s i =
     (case get_object q now s i of
        Inl e \<Rightarrow> (handle_exception e, s)
      | Inr r \<Rightarrow> (HTTP_200_OK (to_representation r), save r s))"
  by (simp add: update_def to_internal_value_JObj serializer_update_def split: sum.splits)

text \<open>An update with a JSON object never changes the database.\<close>

lemma update_JObj_state:
  assumes "pk_constraint s"
  shows "snd (update P partial q now (JObj kvs) s i) = s"
proof (cases "get_object q now s i")
  case (Inl e)
  then show ?thesis by (simp add: update_JObj)
next
  case (Inr r)
  then have "r \<in> set (rows s)"
    by (simp add: get_object_Inr)
  with assms have "save r s = s"
    by (rule save_unchanged)
  with Inr show ?thesis by (simp add: update_JObj)
qed

subsection \<open>Writes\<close>

text \<open>
  C4. Every field of the serializer is read-only, so a write ignores the body of the
  request. A create with any JSON object answers 201 and stores a row with the name
  empty, the location "Cairo", active, never used, under the next key. An update (PUT or
  PATCH) with any JSON object leaves the database as it was, and on an active row it
  answers 200 with the row as it was.
\<close>

theorem writes_ignore_the_body:
  "create P (JObj kvs) s =
     (HTTP_201_CREATED
        (to_representation
           \<lparr>id_pk = next_id s, name = '''', location = ''Cairo'', is_active = True,
            last_usage = None\<rparr>),
      \<lparr>rows = rows s @
         [\<lparr>id_pk = next_id s, name = '''', location = ''Cairo'', is_active = True,
           last_usage = None\<rparr>],
       next_id = next_id s + 1\<rparr>) \<and>
   (pk_constraint s \<longrightarrow> snd (update P partial q now (JObj kvs) s i) = s) \<and>
   (pk_constraint s \<and> r \<in> set (rows s) \<and> is_active r \<longrightarrow>
      update P partial no_params now (JObj kvs) s (id_pk r) =
        (HTTP_200_OK (to_representation r), s))"
proof (intro conjI impI)
  show "create P (JObj kvs) s =
     (HTTP_201_CREATED
        (to_representation
           \<lparr>id_pk = next_id s, name = '''', location = ''Cairo'', is_active = True,
            last_usage = None\<rparr>),
      \<lparr>rows = rows s @
         [\<lparr>id_pk = next_id s, name = '''', location = ''Cairo'', is_active = True,
           last_usage = None\<rparr>],
       next_id = next_id s + 1\<rparr>)"
    by (simp add: create_JObj RVM_init_def)
next
  assume "pk_constraint s"
  then show "snd (update P partial q now (JObj kvs) s i) = s"
    by (rule update_JObj_state)
next
  assume a: "pk_constraint s \<and> r \<in> set (rows s) \<and> is_active r"
  then have "get_object no_params now s (id_pk r) = Inr r"
    by (simp add: get_object_found is_valid_no_params passes_no_params)
  moreover have "save r s = s"
    using a by (simp add: save_unchanged)
  ultimately show "update P partial no_params now (JObj kvs) s (id_pk r) =
        (HTTP_200_OK (to_representation r), s)"
    by (simp add: update_JObj)
qed

theorem writes_ignore_the_body_witness:
  "pk_constraint sample_db \<and> rvm1 \<in> set (rows sample_db) \<and> is_active rvm1 \<and>
   create typed_parser (JObj sample_fields) sample_db =
     (HTTP_201_CREATED
        (to_representation
           \<lparr>id_pk = 5, name = '''', location = ''Cairo'', is_active = True, last_usage = None\<rparr>),
      \<lparr>rows =
         [rvm1, rvm2, rvm3, rvm4,
          \<lparr>id_pk = 5, name = '''', location = ''Cairo'', is_active = True, last_usage = None\<rparr>],
       next_id = 6\<rparr>) \<and>
   snd (update typed_parser True no_params 0 (JObj sample_fields) sample_db 1) = sample_db \<and>
   update typed_parser False no_params 0 (JObj sample_fields) sample_db 1 =
     (HTTP_200_OK (to_representation rvm1), sample_db)"
proof -
  have h: "pk_constraint sample_db \<and> rvm1 \<in> set (rows sample_db) \<and> is_active rvm1"
    by code_simp
  have "next_id sample_db = 5" "rows sample_db = [rvm1, rvm2, rvm3, rvm4]" "id_pk rvm1 = 1"
    by (simp_all add: sample_db_def rvm1_def)
  with h show ?thesis
    using writes_ignore_the_body [of typed_parser sample_fields sample_db True no_params 0 1 rvm1]
      writes_ignore_the_body [of typed_parser sample_fields sample_db False no_params 0 1 rvm1]
    by simp
qed

subsection \<open>The visible rows\<close>

lemma listed_Inr:
  "listed q now s = Inr rs \<Longrightarrow>
     is_valid q \<and> rs = filter (passes q now) (get_queryset s)"
  by (simp add: listed_def filter_queryset_Inr)

lemma list_action_200:
  assumes "list_action q now s = HTTP_200_OK body"
  shows "is_valid q \<and>
         body = JList (map to_representation (filter (passes q now) (get_queryset s)))"
proof (cases "listed q now s")
  case (Inl e)
  with assms show ?thesis
    by (cases e) (simp_all add: list_action_def)
next
  case (Inr rs)
  with assms listed_Inr [OF Inr] show ?thesis
    by (simp add: list_action_def)
qed

lemma not_found_actions:
  assumes "\<not> (\<exists>r\<in>set (rows s). id_pk r = i \<and> is_active r)" "is_valid q"
  shows "retrieve q now s i = HTTP_404_NOT_FOUND"
    and "update P partial q now data s i = (HTTP_404_NOT_FOUND, s)"
    and "destroy q now s i = (HTTP_404_NOT_FOUND, s)"
proof -
  from assms(1) have "\<forall>r\<in>set (rows s). id_pk r = i \<longrightarrow> \<not> is_active r"
    by metis
  then have g: "get_object q now s i = Inl Http404"
    using assms(2) by (rule get_object_not_found)
  show "retrieve q now s i = HTTP_404_NOT_FOUND"
    by (simp add: retrieve_def g)
  show "update P partial q now data s i = (HTTP_404_NOT_FOUND, s)"
    by (simp add: update_def g)
  show "destroy q now s i = (HTTP_404_NOT_FOUND, s)"
    by (simp add: destroy_def g)
qed



subsection \<open>What a request does to the table\<close>

lemma to_internal_value_cases:
  "to_internal_value P partial data = Inr [] \<or>
   (\<exists>errs. to_internal_value P partial data = Inl (ValidationError errs))"
  by (cases data) (simp_all add: to_internal_value_def writable_fields_Nil)

lemma create_state:
  "snd (create P data s) = s \<or>
   snd (create P data s) =
     \<lparr>rows = rows s @ [RVM_init (next_id s)], next_id = next_id s + 1\<rparr>"
  using to_internal_value_cases [of P False data]
  by (auto simp: create_def objects_create_def Let_def)

lemma update_state:
  "snd (update P partial q now data s i) = s \<or>
   (\<exists>r \<in> set (rows s). snd (update P partial q now data s i) = save r s)"
proof (cases "get_object q now s i")
  case (Inl e)
  then show ?thesis by (simp add: update_def)
next
  case (Inr r)
  then have "r \<in> set (rows s)"
    by (simp add: get_object_Inr)
  then show ?thesis
    using Inr to_internal_value_cases [of P partial data]
    by (auto simp: update_def serializer_update_def)
qed

lemma destroy_state:
  "snd (destroy q now s i) = s \<or>
   (\<exists>r \<in> set (rows s). snd (destroy q now s i) = delete r s)"
proof (cases "get_object q now s i")
  case (Inl e)
  then show ?thesis by (simp add: destroy_def)
next
  case (Inr r)
  then have "r \<in> set (rows s)"
    by (simp add: get_object_Inr)
  then show ?thesis
    using Inr by (auto simp: destroy_def)
qed

lemma dispatch_state:
  "snd (dispatch P now rq s) = s \<or>
   snd (dispatch P now rq s) =
     \<lparr>rows = rows s @ [RVM_init (next_id s)], next_id = next_id s + 1\<rparr> \<or>
   (\<exists>r \<in> set (rows s). snd (dispatch P now rq s) = save r s) \<or>
   (\<exists>r \<in> set (rows s). snd (dispatch P now rq s) = delete r s)"
proof (cases rq)
  case (GET_list q)
  then show ?thesis by simp
next
  case (POST data)
  then show ?thesis using create_state [of P data s] by auto
next
  case (GET_detail i q)
  then show ?thesis by simp
next
  case (PUT i q data)
  then show ?thesis using update_state [of P False q now data s i] by auto
next
  case (PATCH i q data)
  then show ?thesis using update_state [of P True q now data s i] by auto
next
  case (DELETE i q)
  then show ?thesis using destroy_state [of q now s i] by auto
qed

lemma keys_save: "r \<in> set (rows s) \<Longrightarrow> map id_pk (rows (save r s)) = map id_pk (rows s)"
  by (simp add: save_def)

lemma next_id_save: "next_id (save r s) = next_id s"
  by (simp add: save_def)

lemma next_id_delete: "next_id (delete r s) = next_id s"
  by (simp add: delete_def)

lemma keys_delete: "map id_pk (rows (delete r s)) = filter (\<lambda>k. k \<noteq> id_pk r) (map id_pk (rows s))"
  by (simp add: delete_def filter_map comp_def)

text \<open>The database keeps the primary-key constraint through every request.\<close>

lemma pk_constraint_empty_db: "pk_constraint empty_db"
  by (simp add: pk_constraint_def empty_db_def)

lemma pk_constraint_keys:
  "pk_constraint s \<longleftrightarrow>
     distinct (map id_pk (rows s)) \<and> (\<forall>k \<in> set (map id_pk (rows s)). k < next_id s)"
  by (simp add: pk_constraint_def list_all_iff)

lemma pk_constraint_dispatch:
  assumes "pk_constraint s"
  shows "pk_constraint (snd (dispatch P now rq s))"
proof -
  have ins: "pk_constraint \<lparr>rows = rows s @ [RVM_init (next_id s)], next_id = next_id s + 1\<rparr>"
    using assms by (fastforce simp: pk_constraint_keys RVM_init_def)
  have sav: "pk_constraint (save r s)" if "r \<in> set (rows s)" for r
    using assms that by (simp add: pk_constraint_keys keys_save next_id_save)
  have del: "pk_constraint (delete r s)" for r
    using assms by (auto simp: pk_constraint_keys keys_delete next_id_delete)
  from dispatch_state [of P now rq s] show ?thesis
    using assms ins sav del by metis
qed

text \<open>A key below the counter that no row has stays so, whatever requests follow.\<close>

lemma unused_key_dispatch:
  assumes "i < next_id s" "i \<notin> set (map id_pk (rows s))"
  shows "i < next_id (snd (dispatch P now rq s)) \<and>
         i \<notin> set (map id_pk (rows (snd (dispatch P now rq s))))"
proof -
  let ?ins = "\<lparr>rows = rows s @ [RVM_init (next_id s)], next_id = next_id s + 1\<rparr>"
  have ins: "i < next_id ?ins \<and> i \<notin> set (map id_pk (rows ?ins))"
    using assms by (simp add: RVM_init_def)
  have sav: "i < next_id (save r s) \<and> i \<notin> set (map id_pk (rows (save r s)))"
    if "r \<in> set (rows s)" for r
    using assms that by (simp add: keys_save next_id_save)
  have del: "i < next_id (delete r s) \<and> i \<notin> set (map id_pk (rows (delete r s)))" for r
    using assms by (simp add: keys_delete next_id_delete)
  from dispatch_state [of P now rq s] show ?thesis
    using assms ins sav del by metis
qed

lemma unused_key_run:
  "i < next_id s \<Longrightarrow> i \<notin> set (map id_pk (rows s)) \<Longrightarrow>
     i < next_id (run P rqs s) \<and> i \<notin> set (map id_pk (rows (run P rqs s)))"
proof (induction rqs arbitrary: s)
  case Nil
  then show ?case by simp
next
  case (Cons a rqs)
  obtain now rq where a: "a = (now, rq)"
    by (cases a)
  from Cons.prems have "i < next_id (snd (dispatch P now rq s)) \<and>
      i \<notin> set (map id_pk (rows (snd (dispatch P now rq s))))"
    by (rule unused_key_dispatch)
  then show ?case
    using a Cons.IH by simp
qed

lemma pk_constraint_run: "pk_constraint s \<Longrightarrow> pk_constraint (run P rqs s)"
proof (induction rqs arbitrary: s)
  case Nil
  then show ?case by simp
next
  case (Cons a rqs)
  obtain now rq where a: "a = (now, rq)"
    by (cases a)
  from Cons.prems have "pk_constraint (snd (dispatch P now rq s))"
    by (rule pk_constraint_dispatch)
  then show ?case
    using a Cons.IH by simp
qed

subsection \<open>Delete\<close>

lemma destroy_found:
  assumes "pk_constraint s" "r \<in> set (rows s)" "is_active r"
  shows "destroy no_params now s (id_pk r) = (HTTP_204_NO_CONTENT, delete r s)"
  using assms
  by (simp add: destroy_def get_object_found is_valid_no_params passes_no_params)

lemma inactive_row_not_found:
  assumes "pk_constraint s" "r \<in> set (rows s)" "\<not> is_active r"
  shows "\<not> (\<exists>x\<in>set (rows s). id_pk x = id_pk r \<and> is_active x)"
proof
  assume "\<exists>x\<in>set (rows s). id_pk x = id_pk r \<and> is_active x"
  then obtain x where x: "x \<in> set (rows s)" "id_pk x = id_pk r" "is_active x"
    by metis
  from assms(1) have "inj_on id_pk (set (rows s))"
    by (simp add: pk_constraint_def distinct_map)
  with x(1,2) assms(2) have "x = r"
    by (meson inj_onD)
  with x(3) assms(3) show False
    by simp
qed

subsection \<open>Update and soft delete\<close>

lemma to_representation_fields:
  "to_representation r =
     JObj [(''id'', JNum (id_pk r)), (''name'', JStr (name r)),
           (''location'', JStr (location r)), (''is_active'', JBool (is_active r)),
           (''last_usage'', case last_usage r of None \<Rightarrow> JNull | Some t \<Rightarrow> JTime t)]"
  by (simp add: to_representation_def Meta_fields_def get_attribute_def)

text \<open>The representation loses nothing: two rows with the same representation are equal.\<close>

lemma to_representation_inj:
  fixes a b :: RVM
  shows "to_representation a = to_representation b \<longleftrightarrow> a = b"
proof
  assume "to_representation a = to_representation b"
  then have "id_pk a = id_pk b \<and> name a = name b \<and> location a = location b \<and>
      is_active a = is_active b \<and> last_usage a = last_usage b"
    by (auto simp: to_representation_fields split: option.splits)
  then show "a = b"
    by simp
next
  assume "a = b"
  then show "to_representation a = to_representation b"
    by simp
qed

lemma update_found:
  assumes "pk_constraint s" "r \<in> set (rows s)" "is_active r"
  shows "update P partial no_params now (JObj kvs) s (id_pk r) =
           (HTTP_200_OK (to_representation r), s)"
  using assms
  by (simp add: update_JObj get_object_found is_valid_no_params passes_no_params
      save_unchanged)

lemma retrieve_found:
  assumes "pk_constraint s" "r \<in> set (rows s)" "is_active r"
  shows "retrieve no_params now s (id_pk r) = HTTP_200_OK (to_representation r)"
  using assms
  by (simp add: retrieve_def get_object_found is_valid_no_params passes_no_params)

subsection \<open>The serialization contract\<close>

lemma handle_exception_not_200: "handle_exception e \<noteq> HTTP_200_OK body"
  by (cases e) simp_all

lemma handle_exception_not_201: "handle_exception e \<noteq> HTTP_201_CREATED body"
  by (cases e) simp_all

lemma retrieve_200:
  assumes "retrieve q now s i = HTTP_200_OK body"
  shows "\<exists>x\<in>set (rows s). body = to_representation x"
proof (cases "get_object q now s i")
  case (Inl e)
  with assms show ?thesis
    by (simp add: retrieve_def handle_exception_not_200)
next
  case (Inr x)
  then have "x \<in> set (rows s)"
    by (simp add: get_object_Inr)
  with assms Inr show ?thesis
    by (auto simp: retrieve_def)
qed

lemma update_200:
  assumes "fst (update P partial q now data s i) = HTTP_200_OK body"
  shows "\<exists>x\<in>set (rows s). body = to_representation x"
proof (cases "get_object q now s i")
  case (Inl e)
  with assms show ?thesis
    by (simp add: update_def handle_exception_not_200)
next
  case (Inr x)
  then have x: "x \<in> set (rows s)"
    by (simp add: get_object_Inr)
  from to_internal_value_cases [of P partial data] show ?thesis
  proof
    assume "to_internal_value P partial data = Inr []"
    with assms Inr x show ?thesis
      by (auto simp: update_def serializer_update_def)
  next
    assume "\<exists>errs. to_internal_value P partial data = Inl (ValidationError errs)"
    with assms Inr show ?thesis
      by (auto simp: update_def)
  qed
qed

lemma create_201:
  assumes "fst (create P data s) = HTTP_201_CREATED body"
  shows "body = to_representation (RVM_init (next_id s))"
  using assms to_internal_value_cases [of P False data]
  by (auto simp: create_def objects_create_def Let_def)

lemma update_keys:
  "map id_pk (rows (snd (update P partial q now data s i))) = map id_pk (rows s)"
  using update_state [of P partial q now data s i]
  by (auto simp: keys_save)

text \<open>
  C2, as the code has it. Every response that carries a row carries its five fields
  \<^verbatim>\<open>id\<close>, \<^verbatim>\<open>name\<close>, \<^verbatim>\<open>location\<close>, \<^verbatim>\<open>is_active\<close>, \<^verbatim>\<open>last_usage\<close>. On input no field is
  accepted: the validated data of any JSON object is empty, a create stores the defaults
  under the key the database gives, and an update stores nothing. The key of a row is
  never changed by a request.
\<close>

theorem serializer_reads_all_fields_writes_none:
  "to_representation r =
     JObj [(''id'', JNum (id_pk r)), (''name'', JStr (name r)),
           (''location'', JStr (location r)), (''is_active'', JBool (is_active r)),
           (''last_usage'', case last_usage r of None \<Rightarrow> JNull | Some t \<Rightarrow> JTime t)] \<and>
   (list_action q now s = HTTP_200_OK body \<longrightarrow> (\<exists>xs. body = JList (map to_representation xs))) \<and>
   (retrieve q now s i = HTTP_200_OK body \<longrightarrow> (\<exists>x. body = to_representation x)) \<and>
   (fst (create P data s) = HTTP_201_CREATED body \<longrightarrow> (\<exists>x. body = to_representation x)) \<and>
   (fst (update P partial q now data s i) = HTTP_200_OK body \<longrightarrow>
      (\<exists>x. body = to_representation x)) \<and>
   to_internal_value P partial (JObj kvs) = Inr [] \<and>
   snd (create P (JObj kvs) s) =
     \<lparr>rows = rows s @
        [\<lparr>id_pk = next_id s, name = '''', location = ''Cairo'', is_active = True,
          last_usage = None\<rparr>],
      next_id = next_id s + 1\<rparr> \<and>
   (pk_constraint s \<longrightarrow> snd (update P partial q now (JObj kvs) s i) = s) \<and>
   map id_pk (rows (snd (update P partial q now data s i))) = map id_pk (rows s)"
proof (intro conjI impI)
  show "to_representation r =
     JObj [(''id'', JNum (id_pk r)), (''name'', JStr (name r)),
           (''location'', JStr (location r)), (''is_active'', JBool (is_active r)),
           (''last_usage'', case last_usage r of None \<Rightarrow> JNull | Some t \<Rightarrow> JTime t)]"
    by (rule to_representation_fields)
  show "to_internal_value P partial (JObj kvs) = Inr []"
    by (rule to_internal_value_JObj)
  show "snd (create P (JObj kvs) s) =
     \<lparr>rows = rows s @
        [\<lparr>id_pk = next_id s, name = '''', location = ''Cairo'', is_active = True,
          last_usage = None\<rparr>],
      next_id = next_id s + 1\<rparr>"
    by (simp add: create_JObj RVM_init_def)
  show "map id_pk (rows (snd (update P partial q now data s i))) = map id_pk (rows s)"
    by (rule update_keys)
next
  assume "list_action q now s = HTTP_200_OK body"
  then show "\<exists>xs. body = JList (map to_representation xs)"
    using list_action_200 by blast
next
  assume "retrieve q now s i = HTTP_200_OK body"
  then show "\<exists>x. body = to_representation x"
    using retrieve_200 by blast
next
  assume "fst (create P data s) = HTTP_201_CREATED body"
  then show "\<exists>x. body = to_representation x"
    using create_201 by blast
next
  assume "fst (update P partial q now data s i) = HTTP_200_OK body"
  then show "\<exists>x. body = to_representation x"
    using update_200 by blast
next
  assume "pk_constraint s"
  then show "snd (update P partial q now (JObj kvs) s i) = s"
    by (rule update_JObj_state)
qed

theorem serializer_reads_all_fields_writes_none_witness:
  "pk_constraint sample_db \<and>
   retrieve no_params 0 sample_db 1 = HTTP_200_OK (to_representation rvm1) \<and>
   to_representation rvm1 =
     JObj [(''id'', JNum 1), (''name'', JStr ''Alpha''), (''location'', JStr ''Alexandria''),
           (''is_active'', JBool True), (''last_usage'', JTime 90000000000)] \<and>
   to_internal_value typed_parser True (JObj sample_fields) = Inr [] \<and>
   snd (create typed_parser (JObj sample_fields) sample_db) =
     \<lparr>rows =
        [rvm1, rvm2, rvm3, rvm4,
         \<lparr>id_pk = 5, name = '''', location = ''Cairo'', is_active = True, last_usage = None\<rparr>],
      next_id = 6\<rparr> \<and>
   snd (update typed_parser True no_params 0 (JObj sample_fields) sample_db 1) = sample_db"
proof -
  have h: "pk_constraint sample_db"
    by code_simp
  have r: "retrieve no_params 0 sample_db 1 = HTTP_200_OK (to_representation rvm1)"
    by code_simp
  have e: "id_pk rvm1 = 1" "name rvm1 = ''Alpha''" "location rvm1 = ''Alexandria''"
    "is_active rvm1 = True" "last_usage rvm1 = Some 90000000000"
    "next_id sample_db = 5" "rows sample_db = [rvm1, rvm2, rvm3, rvm4]"
    by (simp_all add: rvm1_def sample_db_def)
  note t = serializer_reads_all_fields_writes_none
    [of rvm1 no_params 0 sample_db "to_representation rvm1" 1 typed_parser
      "JObj sample_fields" True sample_fields, unfolded e]
  from t h r show ?thesis
    by simp
qed

text \<open>
  C2 as the spec states it fails: a POST with a name and a location that the fields
  would parse stores neither.
\<close>

theorem input_fields_applied_counterexample:
  "typed_parser ''name'' (JStr ''Omega'') = Inr (VStr ''Omega'') \<and>
   typed_parser ''location'' (JStr ''Giza'') = Inr (VStr ''Giza'') \<and>
   create typed_parser (JObj [(''name'', JStr ''Omega''), (''location'', JStr ''Giza'')]) empty_db =
     (HTTP_201_CREATED
        (to_representation
           \<lparr>id_pk = 1, name = '''', location = ''Cairo'', is_active = True, last_usage = None\<rparr>),
      \<lparr>rows =
         [\<lparr>id_pk = 1, name = '''', location = ''Cairo'', is_active = True, last_usage = None\<rparr>],
       next_id = 2\<rparr>)"
  by code_simp

subsection \<open>The order of a listing\<close>

lemma sorted_get_queryset: "sorted (map desc_key (get_queryset s))"
  by (simp add: get_queryset_def order_by_def)

lemma listed_sorted:
  assumes "listed q now s = Inr rs"
  shows "sorted (map desc_key rs)"
proof -
  from assms have "rs = filter (passes q now) (get_queryset s)"
    by (simp add: listed_Inr)
  then show ?thesis
    by (simp add: sorted_filter sorted_get_queryset)
qed

lemma desc_key_le:
  "desc_key x \<le> desc_key y \<longleftrightarrow>
     (case (last_usage x, last_usage y) of
        (Some a, Some b) \<Rightarrow> b \<le> a
      | (None, Some b) \<Rightarrow> False
      | _ \<Rightarrow> True)"
  by (auto simp: desc_key_def nulls_last_def less_eq_prod_def split: option.splits)

lemma list_action_listed:
  "list_action q now s = HTTP_200_OK body \<longleftrightarrow>
     (\<exists>rs. listed q now s = Inr rs \<and> body = JList (map to_representation rs))"
proof (cases "listed q now s")
  case (Inl e)
  then show ?thesis
    by (simp add: list_action_def handle_exception_not_200)
next
  case (Inr rs)
  then show ?thesis
    by (auto simp: list_action_def)
qed

text \<open>
  C6. The rows of every list response are in descending order of \<^verbatim>\<open>last_usage\<close>: of two
  rows that both have a time, the earlier in the list has the later (or the same) time,
  and once a row without a time has appeared, every row after it is without a time.
\<close>

theorem listing_is_descending_nulls_last:
  "list_action q now s = HTTP_200_OK body \<longrightarrow>
     (\<exists>rs. body = JList (map to_representation rs) \<and>
        (\<forall>i j a b. i < j \<and> j < length rs \<and>
            last_usage (rs ! i) = Some a \<and> last_usage (rs ! j) = Some b \<longrightarrow> b \<le> a) \<and>
        (\<forall>i j. i < j \<and> j < length rs \<and> last_usage (rs ! i) = None \<longrightarrow>
            last_usage (rs ! j) = None))"
proof
  assume "list_action q now s = HTTP_200_OK body"
  then obtain rs where rs: "listed q now s = Inr rs" "body = JList (map to_representation rs)"
    by (auto simp: list_action_listed)
  from rs(1) have "sorted (map desc_key rs)"
    by (rule listed_sorted)
  then have o: "desc_key (rs ! i) \<le> desc_key (rs ! j)" if "i < j" "j < length rs" for i j
    using that by (simp add: sorted_map sorted_wrt_iff_nth_less)
  have "b \<le> a"
    if "i < j" "j < length rs" "last_usage (rs ! i) = Some a" "last_usage (rs ! j) = Some b"
    for i j a b
    using o [OF that(1,2)] that(3,4) by (simp add: desc_key_le)
  moreover have "last_usage (rs ! j) = None"
    if "i < j" "j < length rs" "last_usage (rs ! i) = None" for i j
    using o [OF that(1,2)] that(3) by (cases "last_usage (rs ! j)") (simp_all add: desc_key_le)
  ultimately show "\<exists>rs. body = JList (map to_representation rs) \<and>
        (\<forall>i j a b. i < j \<and> j < length rs \<and>
            last_usage (rs ! i) = Some a \<and> last_usage (rs ! j) = Some b \<longrightarrow> b \<le> a) \<and>
        (\<forall>i j. i < j \<and> j < length rs \<and> last_usage (rs ! i) = None \<longrightarrow>
            last_usage (rs ! j) = None)"
    using rs(2) by blast
qed

theorem listing_is_descending_nulls_last_witness:
  "list_action no_params 0 sample_db =
     HTTP_200_OK (JList (map to_representation [rvm1, rvm4, rvm3])) \<and>
   map last_usage [rvm1, rvm4, rvm3] = [Some 90000000000, Some 1000, None] \<and>
   (\<exists>rs. JList (map to_representation [rvm1, rvm4, rvm3]) = JList (map to_representation rs) \<and>
      (\<forall>i j a b. i < j \<and> j < length rs \<and>
          last_usage (rs ! i) = Some a \<and> last_usage (rs ! j) = Some b \<longrightarrow> b \<le> a) \<and>
      (\<forall>i j. i < j \<and> j < length rs \<and> last_usage (rs ! i) = None \<longrightarrow>
          last_usage (rs ! j) = None))"
proof -
  have h: "list_action no_params 0 sample_db =
     HTTP_200_OK (JList (map to_representation [rvm1, rvm4, rvm3]))"
    by code_simp
  have u: "map last_usage [rvm1, rvm4, rvm3] = [Some 90000000000, Some 1000, None]"
    by (simp add: rvm1_def rvm3_def rvm4_def)
  from listing_is_descending_nulls_last
    [of no_params 0 sample_db "JList (map to_representation [rvm1, rvm4, rvm3])"] h u
  show ?thesis
    by blast
qed

subsection \<open>The filters one by one and together\<close>

lemma to_python_None: "to_python None = []"
  by (simp add: to_python_def strip_def)

lemma clean_nullboolean_None: "clean_nullboolean None = None"
  by (simp add: clean_nullboolean_def value_from_datadict_def)










subsection \<open>The substring filter\<close>




lemma strip_Nil: "strip [] = []"
  by (simp add: strip_def)












subsection \<open>The filters together\<close>





text \<open>The filter on \<^verbatim>\<open>location\<close> alone: the location is the stripped value, if there is one.\<close>

lemma passes_location_only:
  "passes (no_params\<lparr>location_param := Some v\<rparr>) now r \<longleftrightarrow>
     strip v = [] \<or> location r = strip v"
  by (simp add: passes_def no_params_def to_python_None clean_nullboolean_None)
     (simp add: to_python_def)



subsection \<open>Create\<close>

lemma to_internal_value_JNull:
  "to_internal_value P partial JNull =
     Inl (ValidationError [(''non_field_errors'', ''No data provided'')])"
  by (simp add: to_internal_value_def)

lemma to_internal_value_not_dict:
  assumes "\<forall>kvs. data \<noteq> JObj kvs" "data \<noteq> JNull"
  shows "to_internal_value P partial data =
     Inl (ValidationError
            [(''non_field_errors'',
              ''Invalid data. Expected a dictionary, but got '' @ type_name data @ ''.'')])"
  using assms by (cases data) (simp_all add: to_internal_value_def)

text \<open>
  C3, as the code has it. A create whose body is a JSON object without \<^verbatim>\<open>name\<close> does not
  fail: no field is required on input, the answer is 201 and the new row has the empty
  name. A create whose body has a \<^verbatim>\<open>name\<close> answers 201 too, and the new row has the
  location "Cairo", is active and was never used. The create that fails is the one
  whose body is not a JSON object: it answers 400 with an error under
  \<^verbatim>\<open>non_field_errors\<close> (\<^verbatim>\<open>No data provided\<close> for \<^verbatim>\<open>null\<close>, and otherwise
  \<^verbatim>\<open>Invalid data. Expected a dictionary, but got\<close> and the type of the body) and creates
  nothing.
\<close>

theorem create_requires_no_name:
  "(map_of kvs ''name'' = None \<longrightarrow>
      create P (JObj kvs) s =
        (HTTP_201_CREATED
           (to_representation
              \<lparr>id_pk = next_id s, name = '''', location = ''Cairo'', is_active = True,
               last_usage = None\<rparr>),
         \<lparr>rows = rows s @
            [\<lparr>id_pk = next_id s, name = '''', location = ''Cairo'', is_active = True,
              last_usage = None\<rparr>],
          next_id = next_id s + 1\<rparr>)) \<and>
   (map_of kvs ''name'' = Some v \<longrightarrow>
      (\<exists>x. create P (JObj kvs) s =
             (HTTP_201_CREATED (to_representation x),
              \<lparr>rows = rows s @ [x], next_id = next_id s + 1\<rparr>) \<and>
           id_pk x = next_id s \<and> location x = ''Cairo'' \<and> is_active x \<and>
           last_usage x = None)) \<and>
   create P JNull s = (HTTP_400_BAD_REQUEST [(''non_field_errors'', ''No data provided'')], s) \<and>
   ((\<forall>kvs. data \<noteq> JObj kvs) \<and> data \<noteq> JNull \<longrightarrow>
      create P data s =
        (HTTP_400_BAD_REQUEST
           [(''non_field_errors'',
             ''Invalid data. Expected a dictionary, but got '' @ type_name data @ ''.'')], s))"
proof (intro conjI impI)
  show "create P (JObj kvs) s =
        (HTTP_201_CREATED
           (to_representation
              \<lparr>id_pk = next_id s, name = '''', location = ''Cairo'', is_active = True,
               last_usage = None\<rparr>),
         \<lparr>rows = rows s @
            [\<lparr>id_pk = next_id s, name = '''', location = ''Cairo'', is_active = True,
              last_usage = None\<rparr>],
          next_id = next_id s + 1\<rparr>)"
    by (simp add: create_JObj RVM_init_def)
  show "\<exists>x. create P (JObj kvs) s =
             (HTTP_201_CREATED (to_representation x),
              \<lparr>rows = rows s @ [x], next_id = next_id s + 1\<rparr>) \<and>
           id_pk x = next_id s \<and> location x = ''Cairo'' \<and> is_active x \<and>
           last_usage x = None"
    by (rule exI [of _ "RVM_init (next_id s)"]) (simp add: create_JObj RVM_init_def)
  show "create P JNull s =
      (HTTP_400_BAD_REQUEST [(''non_field_errors'', ''No data provided'')], s)"
    by (simp add: create_def to_internal_value_JNull)
next
  assume "(\<forall>kvs. data \<noteq> JObj kvs) \<and> data \<noteq> JNull"
  then show "create P data s =
        (HTTP_400_BAD_REQUEST
           [(''non_field_errors'',
             ''Invalid data. Expected a dictionary, but got '' @ type_name data @ ''.'')], s)"
    by (simp add: create_def to_internal_value_not_dict)
qed

theorem create_requires_no_name_witness:
  "map_of [(''location'', JStr ''Giza'')] ''name'' = None \<and>
   map_of sample_fields ''name'' = Some (JStr ''Omega'') \<and>
   (\<forall>kvs. JList [] \<noteq> JObj kvs) \<and> JList [] \<noteq> JNull \<and>
   create typed_parser (JObj [(''location'', JStr ''Giza'')]) sample_db =
     (HTTP_201_CREATED
        (to_representation
           \<lparr>id_pk = 5, name = '''', location = ''Cairo'', is_active = True, last_usage = None\<rparr>),
      \<lparr>rows =
         [rvm1, rvm2, rvm3, rvm4,
          \<lparr>id_pk = 5, name = '''', location = ''Cairo'', is_active = True, last_usage = None\<rparr>],
       next_id = 6\<rparr>) \<and>
   fst (create typed_parser (JObj sample_fields) sample_db) =
     HTTP_201_CREATED
       (to_representation
          \<lparr>id_pk = 5, name = '''', location = ''Cairo'', is_active = True, last_usage = None\<rparr>) \<and>
   create typed_parser JNull sample_db =
     (HTTP_400_BAD_REQUEST [(''non_field_errors'', ''No data provided'')], sample_db) \<and>
   create typed_parser (JList []) sample_db =
     (HTTP_400_BAD_REQUEST
        [(''non_field_errors'', ''Invalid data. Expected a dictionary, but got list.'')],
      sample_db)"
proof -
  have h: "map_of [(''location'', JStr ''Giza'')] ''name'' = None"
    "map_of sample_fields ''name'' = Some (JStr ''Omega'')"
    "(\<forall>kvs. JList [] \<noteq> JObj kvs) \<and> JList [] \<noteq> JNull"
    by (simp_all add: sample_fields_def)
  have e: "next_id sample_db = 5" "rows sample_db = [rvm1, rvm2, rvm3, rvm4]"
    by (simp_all add: sample_db_def)
  have m: "''Invalid data. Expected a dictionary, but got '' @ type_name (JList []) @ ''.'' =
      ''Invalid data. Expected a dictionary, but got list.''"
    by simp
  note t = create_requires_no_name
    [of "[(''location'', JStr ''Giza'')]" typed_parser sample_db "JStr ''Omega''" "JList []",
      unfolded e m]
  have c: "fst (create typed_parser (JObj sample_fields) sample_db) =
     HTTP_201_CREATED
       (to_representation
          \<lparr>id_pk = 5, name = '''', location = ''Cairo'', is_active = True, last_usage = None\<rparr>)"
    by code_simp
  from t h c show ?thesis
    by simp
qed

text \<open>
  C3 as the spec states it fails: a POST with the empty JSON object, which has no
  \<^verbatim>\<open>name\<close>, answers 201 and creates a row.
\<close>

theorem create_without_name_counterexample:
  "map_of [] ''name'' = (None :: jval option) \<and>
   create typed_parser (JObj []) empty_db =
     (HTTP_201_CREATED
        (to_representation
           \<lparr>id_pk = 1, name = '''', location = ''Cairo'', is_active = True, last_usage = None\<rparr>),
      \<lparr>rows =
         [\<lparr>id_pk = 1, name = '''', location = ''Cairo'', is_active = True, last_usage = None\<rparr>],
       next_id = 2\<rparr>)"
  by code_simp

subsection \<open>Requests on one row, with any query string\<close>

text \<open>
  What \<^verbatim>\<open>get_object\<close> finds under the key of a row of the table: the query string is
  cleaned first, then the row must be active and pass the filters.
\<close>

lemma get_object_row:
  assumes "pk_constraint s" "r \<in> set (rows s)"
  shows "get_object q now s (id_pk r) =
     (if \<not> is_valid q then Inl (ValidationError (form_errors q))
      else if is_active r \<and> passes q now r then Inr r
      else Inl Http404)"
proof (cases "is_valid q")
  case False
  then show ?thesis
    by (simp add: get_object_invalid)
next
  case v: True
  show ?thesis
  proof (cases "is_active r \<and> passes q now r")
    case True
    with assms v show ?thesis
      by (simp add: get_object_found)
  next
    case False
    from assms(1) have inj: "inj_on id_pk (set (rows s))"
      by (simp add: pk_constraint_def distinct_map)
    have "x = r" if "x \<in> set (rows s)" "id_pk x = id_pk r" for x
      using inj that assms(2) by (meson inj_onD)
    then have "\<not> (x \<in> set (rows s) \<and> is_active x \<and> passes q now x \<and> id_pk x = id_pk r)" for x
      using False by metis
    then have "filter (\<lambda>x. id_pk x = id_pk r) (filter (passes q now) (get_queryset s)) = []"
      by (simp add: filter_empty_conv set_get_queryset)
    with v False show ?thesis
      by (simp add: get_object_valid)
  qed
qed

lemma destroy_row:
  assumes "pk_constraint s" "r \<in> set (rows s)"
  shows "destroy q now s (id_pk r) =
     (if \<not> is_valid q then (HTTP_400_BAD_REQUEST (form_errors q), s)
      else if is_active r \<and> passes q now r then (HTTP_204_NO_CONTENT, delete r s)
      else (HTTP_404_NOT_FOUND, s))"
  by (simp add: destroy_def get_object_row [OF assms])

lemma retrieve_row:
  assumes "pk_constraint s" "r \<in> set (rows s)"
  shows "retrieve q now s (id_pk r) =
     (if \<not> is_valid q then HTTP_400_BAD_REQUEST (form_errors q)
      else if is_active r \<and> passes q now r then HTTP_200_OK (to_representation r)
      else HTTP_404_NOT_FOUND)"
  by (simp add: retrieve_def get_object_row [OF assms])

lemma update_row:
  assumes "pk_constraint s" "r \<in> set (rows s)"
  shows "update P partial q now (JObj kvs) s (id_pk r) =
     (if \<not> is_valid q then (HTTP_400_BAD_REQUEST (form_errors q), s)
      else if is_active r \<and> passes q now r then (HTTP_200_OK (to_representation r), s)
      else (HTTP_404_NOT_FOUND, s))"
  by (simp add: update_JObj get_object_row [OF assms] save_unchanged [OF assms])

lemma invalid_actions:
  assumes "\<not> is_valid q"
  shows "retrieve q now s i = HTTP_400_BAD_REQUEST (form_errors q)"
    and "update P partial q now data s i = (HTTP_400_BAD_REQUEST (form_errors q), s)"
    and "destroy q now s i = (HTTP_400_BAD_REQUEST (form_errors q), s)"
  using assms
  by (simp_all add: retrieve_def update_def destroy_def get_object_invalid)

text \<open>
  C10, as the code has it. The query string of a delete request goes through the filter
  set before the row is looked up. Delete on the key of an active row, with a query
  string that the form accepts and whose filters the row passes (a request without
  parameters is one), answers 204 and removes the row from the table: no row has the key
  afterwards, a retrieve of the key answers 404, and it still does after any further
  requests (the key is not given out again). With an accepted query string whose
  filters the row does not pass, the delete answers 404 and leaves the database as it
  was. Delete on the key of an inactive row answers 404 and leaves the database as it
  was. With a query string that the form refuses, every delete answers 400 and leaves
  the database as it was.
\<close>

theorem destroy_removes_an_active_row:
  "(pk_constraint s \<and> r \<in> set (rows s) \<and> is_active r \<and> is_valid q \<and> passes q now r \<longrightarrow>
      destroy q now s (id_pk r) =
        (HTTP_204_NO_CONTENT, s\<lparr>rows := filter (\<lambda>x. id_pk x \<noteq> id_pk r) (rows s)\<rparr>) \<and>
      id_pk r \<notin> set (map id_pk (rows (snd (destroy q now s (id_pk r))))) \<and>
      (is_valid q' \<longrightarrow>
         retrieve q' now' (snd (destroy q now s (id_pk r))) (id_pk r) = HTTP_404_NOT_FOUND \<and>
         retrieve q' now' (run P rqs (snd (destroy q now s (id_pk r)))) (id_pk r) =
           HTTP_404_NOT_FOUND)) \<and>
   (pk_constraint s \<and> r \<in> set (rows s) \<and> is_active r \<and> is_valid q \<and> \<not> passes q now r \<longrightarrow>
      destroy q now s (id_pk r) = (HTTP_404_NOT_FOUND, s)) \<and>
   (pk_constraint s \<and> r \<in> set (rows s) \<and> \<not> is_active r \<and> is_valid q \<longrightarrow>
      destroy q now s (id_pk r) = (HTTP_404_NOT_FOUND, s)) \<and>
   (\<not> is_valid q \<longrightarrow> destroy q now s i = (HTTP_400_BAD_REQUEST (form_errors q), s)) \<and>
   is_valid no_params \<and> passes no_params now r"
proof (intro conjI impI)
  assume a: "pk_constraint s \<and> r \<in> set (rows s) \<and> is_active r \<and> is_valid q \<and> passes q now r"
  let ?s' = "snd (destroy q now s (id_pk r))"
  have d: "destroy q now s (id_pk r) = (HTTP_204_NO_CONTENT, delete r s)"
    using a by (simp add: destroy_row)
  then show "destroy q now s (id_pk r) =
      (HTTP_204_NO_CONTENT, s\<lparr>rows := filter (\<lambda>x. id_pk x \<noteq> id_pk r) (rows s)\<rparr>)"
    by (simp add: delete_def)
  have s': "?s' = delete r s"
    by (simp add: d)
  show gone: "id_pk r \<notin> set (map id_pk (rows ?s'))"
    by (simp add: s' keys_delete)
  have below: "id_pk r < next_id ?s'"
    using a by (simp add: s' next_id_delete pk_constraint_def list_all_iff)
  have nf: "retrieve q' now' t (id_pk r) = HTTP_404_NOT_FOUND"
    if "id_pk r \<notin> set (map id_pk (rows t))" "is_valid q'" for t
  proof -
    from that(1) have "\<not> (\<exists>x\<in>set (rows t). id_pk x = id_pk r \<and> is_active x)"
      by (metis image_eqI set_map)
    then show ?thesis
      using that(2) by (simp add: not_found_actions)
  qed
  have after: "id_pk r \<notin> set (map id_pk (rows (run P rqs ?s')))"
    using unused_key_run [OF below gone] by simp
  show "retrieve q' now' ?s' (id_pk r) = HTTP_404_NOT_FOUND" if "is_valid q'"
    using gone that by (rule nf)
  show "retrieve q' now' (run P rqs ?s') (id_pk r) = HTTP_404_NOT_FOUND" if "is_valid q'"
    using after that by (rule nf)
next
  assume "pk_constraint s \<and> r \<in> set (rows s) \<and> is_active r \<and> is_valid q \<and> \<not> passes q now r"
  then show "destroy q now s (id_pk r) = (HTTP_404_NOT_FOUND, s)"
    by (simp add: destroy_row)
next
  assume "pk_constraint s \<and> r \<in> set (rows s) \<and> \<not> is_active r \<and> is_valid q"
  then show "destroy q now s (id_pk r) = (HTTP_404_NOT_FOUND, s)"
    by (simp add: destroy_row)
next
  assume "\<not> is_valid q"
  then show "destroy q now s i = (HTTP_400_BAD_REQUEST (form_errors q), s)"
    by (rule invalid_actions)
next
  show "is_valid no_params"
    by (rule is_valid_no_params)
  show "passes no_params now r"
    by (rule passes_no_params)
qed

theorem destroy_removes_an_active_row_witness:
  "pk_constraint sample_db \<and> rvm1 \<in> set (rows sample_db) \<and> is_active rvm1 \<and>
   rvm4 \<in> set (rows sample_db) \<and> is_active rvm4 \<and>
   rvm2 \<in> set (rows sample_db) \<and> \<not> is_active rvm2 \<and>
   is_valid no_params \<and> passes no_params 0 rvm1 \<and>
   is_valid (no_params\<lparr>loc_param := Some ''alex''\<rparr>) \<and>
   passes (no_params\<lparr>loc_param := Some ''alex''\<rparr>) 0 rvm1 \<and>
   \<not> passes (no_params\<lparr>loc_param := Some ''alex''\<rparr>) 0 rvm4 \<and>
   \<not> is_valid (no_params\<lparr>loc_param := Some [CHR 0x00]\<rparr>) \<and>
   destroy no_params 0 sample_db 1 =
     (HTTP_204_NO_CONTENT, \<lparr>rows = [rvm2, rvm3, rvm4], next_id = 5\<rparr>) \<and>
   destroy (no_params\<lparr>loc_param := Some ''alex''\<rparr>) 0 sample_db 1 =
     (HTTP_204_NO_CONTENT, \<lparr>rows = [rvm2, rvm3, rvm4], next_id = 5\<rparr>) \<and>
   retrieve no_params 7 (snd (destroy no_params 0 sample_db 1)) 1 = HTTP_404_NOT_FOUND \<and>
   retrieve no_params 7
     (run typed_parser [(1, POST (JObj sample_fields)), (2, PUT 1 no_params (JObj sample_fields))]
        (snd (destroy no_params 0 sample_db 1))) 1 = HTTP_404_NOT_FOUND \<and>
   destroy (no_params\<lparr>loc_param := Some ''alex''\<rparr>) 0 sample_db 4 =
     (HTTP_404_NOT_FOUND, sample_db) \<and>
   destroy no_params 0 sample_db 2 = (HTTP_404_NOT_FOUND, sample_db) \<and>
   destroy (no_params\<lparr>loc_param := Some [CHR 0x00]\<rparr>) 0 sample_db 2 =
     (HTTP_400_BAD_REQUEST [(''loc'', ''Null characters are not allowed.'')], sample_db)"
proof -
  let ?qa = "no_params\<lparr>loc_param := Some ''alex''\<rparr>"
  let ?qn = "no_params\<lparr>loc_param := Some [CHR 0x00]\<rparr>"
  let ?rqs = "[(1, POST (JObj sample_fields)), (2, PUT 1 no_params (JObj sample_fields))]"
  have h1: "pk_constraint sample_db \<and> rvm1 \<in> set (rows sample_db) \<and> is_active rvm1 \<and>
      is_valid no_params \<and> passes no_params 0 rvm1"
    by code_simp
  have h1a: "pk_constraint sample_db \<and> rvm1 \<in> set (rows sample_db) \<and> is_active rvm1 \<and>
      is_valid ?qa \<and> passes ?qa 0 rvm1"
    by code_simp
  have h4: "pk_constraint sample_db \<and> rvm4 \<in> set (rows sample_db) \<and> is_active rvm4 \<and>
      is_valid ?qa \<and> \<not> passes ?qa 0 rvm4"
    by code_simp
  have h2: "pk_constraint sample_db \<and> rvm2 \<in> set (rows sample_db) \<and> \<not> is_active rvm2 \<and>
      is_valid no_params"
    by code_simp
  have hn: "\<not> is_valid ?qn"
    by code_simp
  have v: "is_valid no_params"
    by code_simp
  have e: "sample_db\<lparr>rows := filter (\<lambda>x. id_pk x \<noteq> 1) (rows sample_db)\<rparr> =
      \<lparr>rows = [rvm2, rvm3, rvm4], next_id = 5\<rparr>"
    by code_simp
  have f: "form_errors ?qn = [(''loc'', ''Null characters are not allowed.'')]"
    by code_simp
  have i: "id_pk rvm1 = 1" "id_pk rvm2 = 2" "id_pk rvm4 = 4"
    by (simp_all add: rvm1_def rvm2_def rvm4_def)
  note t1 = destroy_removes_an_active_row
    [of sample_db rvm1 no_params 0 no_params 7 typed_parser ?rqs 1, unfolded i e]
  note t1a = destroy_removes_an_active_row
    [of sample_db rvm1 ?qa 0 no_params 7 typed_parser ?rqs 1, unfolded i e]
  note t4 = destroy_removes_an_active_row
    [of sample_db rvm4 ?qa 0 no_params 7 typed_parser ?rqs 1, unfolded i]
  note t2 = destroy_removes_an_active_row
    [of sample_db rvm2 no_params 0 no_params 7 typed_parser ?rqs 1, unfolded i]
  note tn = destroy_removes_an_active_row
    [of sample_db rvm2 ?qn 0 no_params 7 typed_parser ?rqs 2, unfolded i f]
  from t1 h1 v have c1: "destroy no_params 0 sample_db 1 =
      (HTTP_204_NO_CONTENT, \<lparr>rows = [rvm2, rvm3, rvm4], next_id = 5\<rparr>) \<and>
    retrieve no_params 7 (snd (destroy no_params 0 sample_db 1)) 1 = HTTP_404_NOT_FOUND \<and>
    retrieve no_params 7 (run typed_parser ?rqs (snd (destroy no_params 0 sample_db 1))) 1 =
      HTTP_404_NOT_FOUND"
    by blast
  from t1a h1a have c1a: "destroy ?qa 0 sample_db 1 =
      (HTTP_204_NO_CONTENT, \<lparr>rows = [rvm2, rvm3, rvm4], next_id = 5\<rparr>)"
    by blast
  from t4 h4 have c4: "destroy ?qa 0 sample_db 4 = (HTTP_404_NOT_FOUND, sample_db)"
    by blast
  from t2 h2 have c2: "destroy no_params 0 sample_db 2 = (HTTP_404_NOT_FOUND, sample_db)"
    by blast
  from tn hn have cn: "destroy ?qn 0 sample_db 2 =
      (HTTP_400_BAD_REQUEST [(''loc'', ''Null characters are not allowed.'')], sample_db)"
    by blast
  from h1 h1a h4 h2 hn c1 c1a c4 c2 cn show ?thesis
    by blast
qed

text \<open>
  C10 as the spec states it fails for a delete with a query string: row 4 of the sample
  database is active and is retrieved under its key, but it was last used long ago, and
  a DELETE on its key with \<^verbatim>\<open>recent=true\<close> answers 404 and removes nothing.
\<close>

theorem destroy_with_filter_counterexample:
  "pk_constraint sample_db \<and> rvm4 \<in> set (rows sample_db) \<and> is_active rvm4 \<and>
   is_valid (no_params\<lparr>recent_param := Some ''true''\<rparr>) \<and>
   retrieve no_params 90000001000 sample_db 4 = HTTP_200_OK (to_representation rvm4) \<and>
   destroy (no_params\<lparr>recent_param := Some ''true''\<rparr>) 90000001000 sample_db 4 =
     (HTTP_404_NOT_FOUND, sample_db) \<and>
   retrieve no_params 90000001000
     (snd (destroy (no_params\<lparr>recent_param := Some ''true''\<rparr>) 90000001000 sample_db 4)) 4 =
     HTTP_200_OK (to_representation rvm4)"
  by code_simp

subsection \<open>Update cannot soft-delete\<close>

text \<open>
  C1, as the code has it. \<^verbatim>\<open>is_active\<close> is read-only on input, so an update (PUT or PATCH)
  of an active row whose body sets \<^verbatim>\<open>is_active\<close> to false changes nothing, whatever its
  query string: the table is as it was. The update answers 200 with the row as it was when
  the form accepts the query string and the row passes its filters (a request without
  parameters is one), 404 when the row does not pass them, and 400 when the form refuses
  the query string. Afterwards the row is still in the list and a retrieve of its key
  still finds it. A row that is inactive in the table is in no list, and retrieve, update
  and delete on its key answer 404 with every query string the form accepts, and 400
  with one it refuses.
\<close>

theorem update_cannot_soft_delete:
  "(pk_constraint s \<and> r \<in> set (rows s) \<and> is_active r \<and>
    map_of kvs ''is_active'' = Some (JBool False) \<longrightarrow>
      update P partial q now (JObj kvs) s (id_pk r) =
        (if \<not> is_valid q then HTTP_400_BAD_REQUEST (form_errors q)
         else if passes q now r then HTTP_200_OK (to_representation r)
         else HTTP_404_NOT_FOUND, s) \<and>
      update P partial no_params now (JObj kvs) s (id_pk r) =
        (HTTP_200_OK (to_representation r), s) \<and>
      r \<in> set (get_queryset (snd (update P partial q now (JObj kvs) s (id_pk r)))) \<and>
      list_action no_params now' (snd (update P partial q now (JObj kvs) s (id_pk r))) =
        HTTP_200_OK (JList (map to_representation (get_queryset s))) \<and>
      retrieve q' now' (snd (update P partial q now (JObj kvs) s (id_pk r))) (id_pk r) =
        (if \<not> is_valid q' then HTTP_400_BAD_REQUEST (form_errors q')
         else if passes q' now' r then HTTP_200_OK (to_representation r)
         else HTTP_404_NOT_FOUND) \<and>
      retrieve no_params now' (snd (update P partial q now (JObj kvs) s (id_pk r))) (id_pk r) =
        HTTP_200_OK (to_representation r)) \<and>
   (pk_constraint s \<and> r \<in> set (rows s) \<and> \<not> is_active r \<longrightarrow>
      (list_action q now s = HTTP_200_OK (JList items) \<longrightarrow> to_representation r \<notin> set items) \<and>
      (is_valid q \<longrightarrow>
         retrieve q now s (id_pk r) = HTTP_404_NOT_FOUND \<and>
         update P partial q now data s (id_pk r) = (HTTP_404_NOT_FOUND, s) \<and>
         destroy q now s (id_pk r) = (HTTP_404_NOT_FOUND, s)) \<and>
      (\<not> is_valid q \<longrightarrow>
         retrieve q now s (id_pk r) = HTTP_400_BAD_REQUEST (form_errors q) \<and>
         update P partial q now data s (id_pk r) = (HTTP_400_BAD_REQUEST (form_errors q), s) \<and>
         destroy q now s (id_pk r) = (HTTP_400_BAD_REQUEST (form_errors q), s)))"
proof (intro conjI impI)
  assume a: "pk_constraint s \<and> r \<in> set (rows s) \<and> is_active r \<and>
    map_of kvs ''is_active'' = Some (JBool False)"
  then have p: "pk_constraint s" "r \<in> set (rows s)" and act: "is_active r"
    by simp_all
  let ?s' = "snd (update P partial q now (JObj kvs) s (id_pk r))"
  have s': "?s' = s"
    using p(1) by (rule update_JObj_state)
  show "update P partial q now (JObj kvs) s (id_pk r) =
        (if \<not> is_valid q then HTTP_400_BAD_REQUEST (form_errors q)
         else if passes q now r then HTTP_200_OK (to_representation r)
         else HTTP_404_NOT_FOUND, s)"
    using act by (simp add: update_row [OF p])
  show "update P partial no_params now (JObj kvs) s (id_pk r) =
        (HTTP_200_OK (to_representation r), s)"
    using act by (simp add: update_row [OF p] is_valid_no_params passes_no_params)
  show "r \<in> set (get_queryset ?s')"
    using p(2) act by (simp add: s' set_get_queryset)
  show "list_action no_params now' ?s' =
        HTTP_200_OK (JList (map to_representation (get_queryset s)))"
    by (simp add: s' list_action_def listed_no_params)
  show "retrieve q' now' ?s' (id_pk r) =
        (if \<not> is_valid q' then HTTP_400_BAD_REQUEST (form_errors q')
         else if passes q' now' r then HTTP_200_OK (to_representation r)
         else HTTP_404_NOT_FOUND)"
    using act by (simp add: s' retrieve_row [OF p])
  show "retrieve no_params now' ?s' (id_pk r) = HTTP_200_OK (to_representation r)"
    using act by (simp add: s' retrieve_row [OF p] is_valid_no_params passes_no_params)
next
  assume a: "pk_constraint s \<and> r \<in> set (rows s) \<and> \<not> is_active r"
  then have n: "\<not> (\<exists>x\<in>set (rows s). id_pk x = id_pk r \<and> is_active x)"
    by (simp add: inactive_row_not_found)
  show "retrieve q now s (id_pk r) = HTTP_404_NOT_FOUND" if "is_valid q"
    using n that by (simp add: not_found_actions)
  show "update P partial q now data s (id_pk r) = (HTTP_404_NOT_FOUND, s)" if "is_valid q"
    using n that by (simp add: not_found_actions)
  show "destroy q now s (id_pk r) = (HTTP_404_NOT_FOUND, s)" if "is_valid q"
    using n that by (simp add: not_found_actions)
  show "retrieve q now s (id_pk r) = HTTP_400_BAD_REQUEST (form_errors q)" if "\<not> is_valid q"
    using that by (rule invalid_actions)
  show "update P partial q now data s (id_pk r) = (HTTP_400_BAD_REQUEST (form_errors q), s)"
    if "\<not> is_valid q"
    using that by (rule invalid_actions)
  show "destroy q now s (id_pk r) = (HTTP_400_BAD_REQUEST (form_errors q), s)"
    if "\<not> is_valid q"
    using that by (rule invalid_actions)
  show "to_representation r \<notin> set items" if l: "list_action q now s = HTTP_200_OK (JList items)"
  proof -
    from list_action_200 [OF l]
    have "items = map to_representation (filter (passes q now) (get_queryset s))"
      by simp
    moreover have "r \<notin> set (filter (passes q now) (get_queryset s))"
      using a by (simp add: set_get_queryset)
    ultimately show ?thesis
      by (auto simp: to_representation_inj)
  qed
qed

theorem update_cannot_soft_delete_witness:
  "pk_constraint sample_db \<and> rvm1 \<in> set (rows sample_db) \<and> is_active rvm1 \<and>
   map_of sample_fields ''is_active'' = Some (JBool False) \<and>
   rvm2 \<in> set (rows sample_db) \<and> \<not> is_active rvm2 \<and>
   is_valid (no_params\<lparr>loc_param := Some ''cairo''\<rparr>) \<and>
   \<not> passes (no_params\<lparr>loc_param := Some ''cairo''\<rparr>) 0 rvm1 \<and>
   update typed_parser True no_params 0 (JObj sample_fields) sample_db 1 =
     (HTTP_200_OK (to_representation rvm1), sample_db) \<and>
   update typed_parser True (no_params\<lparr>loc_param := Some ''cairo''\<rparr>) 0 (JObj sample_fields)
     sample_db 1 = (HTTP_404_NOT_FOUND, sample_db) \<and>
   rvm1 \<in> set (get_queryset
     (snd (update typed_parser True (no_params\<lparr>loc_param := Some ''cairo''\<rparr>) 0
        (JObj sample_fields) sample_db 1))) \<and>
   retrieve no_params 1
     (snd (update typed_parser True (no_params\<lparr>loc_param := Some ''cairo''\<rparr>) 0
        (JObj sample_fields) sample_db 1)) 1 = HTTP_200_OK (to_representation rvm1) \<and>
   retrieve (no_params\<lparr>loc_param := Some ''cairo''\<rparr>) 0 sample_db 2 = HTTP_404_NOT_FOUND \<and>
   update typed_parser True (no_params\<lparr>loc_param := Some ''cairo''\<rparr>) 0 (JObj sample_fields)
     sample_db 2 = (HTTP_404_NOT_FOUND, sample_db) \<and>
   destroy (no_params\<lparr>loc_param := Some ''cairo''\<rparr>) 0 sample_db 2 =
     (HTTP_404_NOT_FOUND, sample_db)"
proof -
  let ?q = "no_params\<lparr>loc_param := Some ''cairo''\<rparr>"
  have h1: "pk_constraint sample_db \<and> rvm1 \<in> set (rows sample_db) \<and> is_active rvm1 \<and>
      map_of sample_fields ''is_active'' = Some (JBool False)"
    by code_simp
  have h2: "pk_constraint sample_db \<and> rvm2 \<in> set (rows sample_db) \<and> \<not> is_active rvm2"
    by code_simp
  have v: "is_valid ?q" "\<not> passes ?q 0 rvm1"
    by code_simp+
  have i: "id_pk rvm1 = 1" "id_pk rvm2 = 2"
    by (simp_all add: rvm1_def rvm2_def)
  note t1 = update_cannot_soft_delete
    [of sample_db rvm1 sample_fields typed_parser True ?q 0 1 no_params "[]" "JObj sample_fields",
      unfolded i]
  note t2 = update_cannot_soft_delete
    [of sample_db rvm2 sample_fields typed_parser True ?q 0 1 no_params "[]" "JObj sample_fields",
      unfolded i]
  from mp [OF t1 [THEN conjunct1] h1]
  have c1: "update typed_parser True ?q 0 (JObj sample_fields) sample_db 1 =
        (if \<not> is_valid ?q then HTTP_400_BAD_REQUEST (form_errors ?q)
         else if passes ?q 0 rvm1 then HTTP_200_OK (to_representation rvm1)
         else HTTP_404_NOT_FOUND, sample_db)"
    and c2: "update typed_parser True no_params 0 (JObj sample_fields) sample_db 1 =
        (HTTP_200_OK (to_representation rvm1), sample_db)"
    and c3: "rvm1 \<in> set (get_queryset
        (snd (update typed_parser True ?q 0 (JObj sample_fields) sample_db 1)))"
    and c4: "retrieve no_params 1
        (snd (update typed_parser True ?q 0 (JObj sample_fields) sample_db 1)) 1 =
        HTTP_200_OK (to_representation rvm1)"
    by blast+
  from c1 v have c1': "update typed_parser True ?q 0 (JObj sample_fields) sample_db 1 =
      (HTTP_404_NOT_FOUND, sample_db)"
    by simp
  from mp [OF t2 [THEN conjunct2] h2] v(1)
  have c5: "retrieve ?q 0 sample_db 2 = HTTP_404_NOT_FOUND \<and>
      update typed_parser True ?q 0 (JObj sample_fields) sample_db 2 =
        (HTTP_404_NOT_FOUND, sample_db) \<and>
      destroy ?q 0 sample_db 2 = (HTTP_404_NOT_FOUND, sample_db)"
    by blast
  from h1 h2 v c1' c2 c3 c4 c5 show ?thesis
    by blast
qed

text \<open>
  C1 as the spec states it fails: a PATCH of row 1 of the sample database with
  \<^verbatim>\<open>{"is_active": false}\<close>, a value the field would parse, answers 200, and the row is
  still listed and still retrieved afterwards.
\<close>

theorem update_soft_delete_counterexample:
  "pk_constraint sample_db \<and> rvm1 \<in> set (rows sample_db) \<and> is_active rvm1 \<and>
   typed_parser ''is_active'' (JBool False) = Inr (VBool False) \<and>
   fst (update typed_parser True no_params 0 (JObj [(''is_active'', JBool False)]) sample_db 1) =
     HTTP_200_OK (to_representation rvm1) \<and>
   list_action no_params 1
     (snd (update typed_parser True no_params 0 (JObj [(''is_active'', JBool False)]) sample_db 1)) =
     HTTP_200_OK (JList (map to_representation [rvm1, rvm4, rvm3])) \<and>
   retrieve no_params 1
     (snd (update typed_parser True no_params 0 (JObj [(''is_active'', JBool False)]) sample_db 1)) 1 =
     HTTP_200_OK (to_representation rvm1)"
  by code_simp

end
